theory Spec2Isabelle
  imports Main "HOL-Library.Word"
begin

unbundle bit_operations_syntax

section \<open>Bytes, hex strings and the byte codec\<close>

text \<open>
  \<^verbatim>\<open>ox/_esm/core/Keystore.js\<close> works on \<^verbatim>\<open>Uint8Array\<close>s and on hex strings. A byte array is
  a list of 8-bit words, a JavaScript string a \<open>string\<close>. Arguments typed
  \<^verbatim>\<open>Bytes.Bytes | Hex.Hex\<close> are values of \<open>hex_or_bytes\<close>; an optional argument is an
  \<open>option\<close>, with \<open>None\<close> for \<^verbatim>\<open>undefined\<close>. A JavaScript \<^verbatim>\<open>number\<close> that the code only
  stores and passes on is an \<open>int\<close>.
\<close>

type_synonym byte = "8 word"
type_synonym bytes = "byte list"

datatype hex_or_bytes = Hex string | Bytes bytes

text \<open>
  Every \<^verbatim>\<open>throw\<close> is a value: \<open>CorruptKeystore\<close> is the
  \<^verbatim>\<open>new Error('corrupt keystore')\<close> of \<^verbatim>\<open>decrypt\<close>; \<open>InvalidByteSequence\<close> is the byte
  codec refusing a string that is not hex; \<open>CipherError\<close> and \<open>KdfError\<close> stand for any
  exception thrown inside the AES-CTR cipher and inside the PBKDF2 or scrypt primitive.
\<close>

datatype error = CorruptKeystore | InvalidByteSequence | CipherError | KdfError

text \<open>
  The module \<^verbatim>\<open>./Bytes.js\<close> is imported by \<^verbatim>\<open>Keystore.js\<close> and is not among the source
  files. The spec calls it ByteCodec: "hex to byte-array conversion, byte
  concatenation/slicing/equality, random byte generation", with hex strings in lower case
  and a \<^verbatim>\<open>0x\<close> prefix on the caller's side. Each function of it that \<^verbatim>\<open>Keystore.js\<close> calls is
  modelled from these words.
\<close>

text \<open>
  Modelled from the spec: the two lower-case hex digits of a byte, the table that
  \<open>Bytes.toHex\<close> of the absent \<^verbatim>\<open>./Bytes.js\<close> reads.
\<close>

definition hexes :: "byte \<Rightarrow> string" where
  "hexes b = [''0123456789abcdef'' ! (unat b div 16), ''0123456789abcdef'' ! (unat b mod 16)]"

text \<open>
  Modelled from the spec: \<open>Bytes.toHex\<close> of the absent \<^verbatim>\<open>./Bytes.js\<close>, the prefix \<^verbatim>\<open>0x\<close>
  followed by the digits of each byte.
\<close>

definition Bytes_toHex :: "bytes \<Rightarrow> string" where
  "Bytes_toHex bs = ''0x'' @ concat (map hexes bs)"

text \<open>
  Modelled from the spec: the value of a hex digit, for the decoding in the absent
  \<^verbatim>\<open>./Bytes.js\<close>. Digits are accepted in either case; any other character has no value.
\<close>

definition charCodeToBase16 :: "char \<Rightarrow> nat option" where
  "charCodeToBase16 ch =
     (let code = (of_char ch :: nat) in
      if 48 \<le> code \<and> code \<le> 57 then Some (code - 48)
      else if 65 \<le> code \<and> code \<le> 70 then Some (code - 55)
      else if 97 \<le> code \<and> code \<le> 102 then Some (code - 87)
      else None)"

text \<open>
  Modelled from the spec: the loop of the hex decoding in the absent \<^verbatim>\<open>./Bytes.js\<close>, one
  byte for each pair of digits; a character without a value is the spec's "non-hex
  string" and is refused.
\<close>

fun fromHexString :: "string \<Rightarrow> error + bytes" where
  "fromHexString [] = Inr []"
| "fromHexString [nibble] = Inl InvalidByteSequence"
| "fromHexString (left # right # rest) =
     (case (charCodeToBase16 left, charCodeToBase16 right) of
        (Some nibbleLeft, Some nibbleRight) \<Rightarrow>
          (case fromHexString rest of
             Inl e \<Rightarrow> Inl e
           | Inr bs \<Rightarrow> Inr (of_nat (nibbleLeft * 16 + nibbleRight) # bs))
      | _ \<Rightarrow> Inl InvalidByteSequence)"

text \<open>
  Modelled from the spec: the hex to byte-array conversion of the absent \<^verbatim>\<open>./Bytes.js\<close>.
  The two characters of the prefix are dropped and a string with an odd number of digits
  is read with a leading zero.
\<close>

definition Bytes_fromHex :: "string \<Rightarrow> error + bytes" where
  "Bytes_fromHex hex =
     (let hexString = drop 2 hex;
          hexString = (if odd (length hexString) then CHR ''0'' # hexString else hexString)
      in fromHexString hexString)"

text \<open>
  Modelled from the spec: \<open>Bytes.from\<close> of the absent \<^verbatim>\<open>./Bytes.js\<close> returns a byte array
  as it is and converts a hex string.
\<close>

fun Bytes_from :: "hex_or_bytes \<Rightarrow> error + bytes" where
  "Bytes_from (Bytes b) = Inr b"
| "Bytes_from (Hex s) = Bytes_fromHex s"

text \<open>
  Modelled from the spec: \<open>Bytes.slice\<close> of the absent \<^verbatim>\<open>./Bytes.js\<close>, the spec's
  \<open>material[start:stop]\<close>: the bytes from position \<open>start\<close> up to, not including, position
  \<open>stop\<close>, fewer if the array ends before.
\<close>

definition Bytes_slice :: "bytes \<Rightarrow> nat \<Rightarrow> nat \<Rightarrow> bytes" where
  "Bytes_slice v start stop = take (stop - start) (drop start v)"

text \<open>
  Modelled from the spec: \<open>Bytes.concat\<close> of the absent \<^verbatim>\<open>./Bytes.js\<close>, byte concatenation.
\<close>

definition Bytes_concat :: "bytes \<Rightarrow> bytes \<Rightarrow> bytes" where
  "Bytes_concat a b = a @ b"

text \<open>
  Modelled from the spec: \<open>Bytes.isEqual\<close> of the absent \<^verbatim>\<open>./Bytes.js\<close>, byte equality.
\<close>

definition Bytes_isEqual :: "bytes \<Rightarrow> bytes \<Rightarrow> bool" where
  "Bytes_isEqual a b = (a = b)"

text \<open>
  Modelled from the spec: \<open>Bytes.random\<close> of the absent \<^verbatim>\<open>./Bytes.js\<close>, random byte
  generation. The platform's generator is an explicit state, an unbounded tape of bytes;
  \<open>Bytes.random(len)\<close> reads the next \<open>len\<close> bytes and moves the tape on, so two draws in a
  row are different parts of the tape.
\<close>

type_synonym entropy = "nat \<Rightarrow> byte"

definition Bytes_random :: "nat \<Rightarrow> entropy \<Rightarrow> bytes \<times> entropy" where
  "Bytes_random len g = (map g [0..<len], \<lambda>i. g (len + i))"

text \<open>
  JavaScript's truthiness of a defined value of type \<^verbatim>\<open>Bytes.Bytes | Hex.Hex\<close>: every object
  (also an empty \<^verbatim>\<open>Uint8Array\<close>) is truthy, a string is truthy unless it is empty.
  \<open>from_or_random\<close> is the expression
  \<^verbatim>\<open>v ? Bytes.from(v) : Bytes.random(len)\<close>, which the source writes for every salt and iv.
\<close>

fun truthy :: "hex_or_bytes \<Rightarrow> bool" where
  "truthy (Hex s) = (s \<noteq> [])"
| "truthy (Bytes b) = True"

definition from_or_random ::
  "hex_or_bytes option \<Rightarrow> nat \<Rightarrow> entropy \<Rightarrow> (error + bytes) \<times> entropy" where
  "from_or_random v len g =
     (case v of
        None \<Rightarrow> (case Bytes_random len g of (b, g') \<Rightarrow> (Inr b, g'))
      | Some x \<Rightarrow>
          if truthy x then (Bytes_from x, g)
          else (case Bytes_random len g of (b, g') \<Rightarrow> (Inr b, g')))"

section \<open>The data model of \<^verbatim>\<open>Keystore.d.ts\<close>\<close>

record pbkdf2_kdfparams =
  c :: int
  dklen :: int
  "prf" :: string
  salt :: string

record scrypt_kdfparams =
  dklen :: int
  n :: int
  p :: int
  r :: int
  salt :: string

datatype kdfparams = Pbkdf2 pbkdf2_kdfparams | Scrypt scrypt_kdfparams

text \<open>
  \<^verbatim>\<open>BaseKey\<close>: the derived secret is the hex string that the accessor \<open>key\<close> returns.
  \<open>key_value\<close> is \<^verbatim>\<open>defineKey.Value\<close>, the same with an optional iv in either form.
\<close>

record key =
  iv :: bytes
  key :: "unit \<Rightarrow> string"
  kdfparams :: kdfparams
  kdf :: string

record key_value =
  iv :: "hex_or_bytes option"
  key :: "unit \<Rightarrow> string"
  kdfparams :: kdfparams
  kdf :: string

record cipherparams =
  iv :: string

record crypto =
  cipher :: string
  ciphertext :: string
  cipherparams :: cipherparams
  kdf :: string
  kdfparams :: kdfparams
  mac :: string

text \<open>
  The TypeScript type of \<open>version\<close> is the literal \<open>3\<close> and that of \<open>cipher\<close> the literal
  \<^verbatim>\<open>'aes-128-ctr'\<close>; a record read from storage can hold anything there, so the fields are
  an \<open>int\<close> and a \<open>string\<close>.
\<close>

record keystore =
  crypto :: crypto
  id' :: string
  version :: int

record decrypt_options =
  as :: "string option"

record encrypt_options =
  id' :: "string option"

record pbkdf2_options =
  iv :: "hex_or_bytes option"
  iterations :: "int option"
  password :: string
  salt :: "hex_or_bytes option"

record scrypt_options =
  iv :: "hex_or_bytes option"
  n :: "int option"
  password :: string
  salt :: "hex_or_bytes option"

section \<open>The external primitives\<close>

text \<open>
  \<^verbatim>\<open>Keystore.js\<close> imports its cryptography: \<open>Hash.keccak256\<close>, \<open>ctr\<close> of
  \<^verbatim>\<open>@noble/ciphers/aes\<close>, \<open>pbkdf2\<close>, \<open>pbkdf2Async\<close>, \<open>scrypt\<close> and \<open>scryptAsync\<close> of
  \<^verbatim>\<open>@noble/hashes\<close>, and the platform's \<open>crypto.randomUUID\<close>. None of them is among the
  source files, so they are parameters of the model, and every theorem holds for whatever
  they compute. \<open>ctr_encrypt P encKey iv data\<close> is \<^verbatim>\<open>ctr(encKey, iv).encrypt(data)\<close>;
  \<open>pbkdf2_noble P password salt c dkLen\<close> is
  \<^verbatim>\<open>pbkdf2_noble(sha256, password, salt, { c, dkLen })\<close>;
  \<open>scrypt_noble P password salt N dkLen r p\<close> is
  \<^verbatim>\<open>scrypt_noble(password, salt, { N, dkLen, r, p })\<close>. A cipher or a derivation that
  throws returns \<open>None\<close>. An \<^verbatim>\<open>async\<close> function is modelled by the value its promise
  settles to.
\<close>

record primitives =
  keccak256 :: "bytes \<Rightarrow> bytes"
  ctr_encrypt :: "bytes \<Rightarrow> bytes \<Rightarrow> bytes \<Rightarrow> bytes option"
  ctr_decrypt :: "bytes \<Rightarrow> bytes \<Rightarrow> bytes \<Rightarrow> bytes option"
  pbkdf2_noble :: "string \<Rightarrow> bytes \<Rightarrow> int \<Rightarrow> int \<Rightarrow> bytes option"
  pbkdf2Async_noble :: "string \<Rightarrow> bytes \<Rightarrow> int \<Rightarrow> int \<Rightarrow> bytes option"
  scrypt_noble :: "string \<Rightarrow> bytes \<Rightarrow> int \<Rightarrow> int \<Rightarrow> int \<Rightarrow> int \<Rightarrow> bytes option"
  scryptAsync_noble :: "string \<Rightarrow> bytes \<Rightarrow> int \<Rightarrow> int \<Rightarrow> int \<Rightarrow> int \<Rightarrow> bytes option"
  randomUUID :: "entropy \<Rightarrow> string \<times> entropy"

section \<open>\<^verbatim>\<open>Keystore.js\<close>\<close>

text \<open>
  \<^verbatim>\<open>
  function defineKey(key) {
      const iv = key.iv ? Bytes.from(key.iv) : Bytes.random(16);
      return { ...key, iv };
  }
  \<close>
\<close>

definition defineKey :: "key_value \<Rightarrow> entropy \<Rightarrow> (error + key) \<times> entropy" where
  "defineKey kv g =
     (case from_or_random (key_value.iv kv) 16 g of
        (Inl e, g') \<Rightarrow> (Inl e, g')
      | (Inr iv', g') \<Rightarrow>
          (Inr \<lparr> key.iv = iv', key = key_value.key kv,
                 kdfparams = key_value.kdfparams kv, kdf = key_value.kdf kv \<rparr>, g'))"

text \<open>
  \<^verbatim>\<open>
  export async function decrypt(keystore, key, options = {}) {
      const { as = 'Hex' } = options;
      const key_ = Bytes.from(`0x${key.key()}`);
      const encKey = Bytes.slice(key_, 0, 16);
      const macKey = Bytes.slice(key_, 16, 32);
      const ciphertext = Bytes.from(`0x${keystore.crypto.ciphertext}`);
      const mac = Hash.keccak256(Bytes.concat(macKey, ciphertext));
      if (!Bytes.isEqual(mac, Bytes.from(`0x${keystore.crypto.mac}`)))
          throw new Error('corrupt keystore');
      const data = ctr(encKey, key.iv).decrypt(ciphertext);
      if (as === 'Hex')
          return Bytes.toHex(data);
      return data;
  }
  \<close>
\<close>

definition decrypt ::
  "primitives \<Rightarrow> keystore \<Rightarrow> key \<Rightarrow> decrypt_options \<Rightarrow> error + hex_or_bytes" where
  "decrypt P ks k options =
     (let as' = (case as options of None \<Rightarrow> ''Hex'' | Some a \<Rightarrow> a) in
      case Bytes_from (Hex (''0x'' @ key.key k ())) of
        Inl e \<Rightarrow> Inl e
      | Inr key' \<Rightarrow>
         (let encKey = Bytes_slice key' 0 16;
              macKey = Bytes_slice key' 16 32 in
          (case Bytes_from (Hex (''0x'' @ ciphertext (crypto ks))) of
             Inl e \<Rightarrow> Inl e
           | Inr ciphertext' \<Rightarrow>
              (let mac' = keccak256 P (Bytes_concat macKey ciphertext') in
               (case Bytes_from (Hex (''0x'' @ mac (crypto ks))) of
                  Inl e \<Rightarrow> Inl e
                | Inr stored \<Rightarrow>
                   (if \<not> Bytes_isEqual mac' stored then Inl CorruptKeystore
                    else
                      (case ctr_decrypt P encKey (key.iv k) ciphertext' of
                         None \<Rightarrow> Inl CipherError
                       | Some data \<Rightarrow>
                          (if as' = ''Hex'' then Inr (Hex (Bytes_toHex data))
                           else Inr (Bytes data)))))))))"

text \<open>
  \<^verbatim>\<open>
  export async function encrypt(privateKey, key, options = {}) {
      const { id = crypto.randomUUID() } = options;
      const key_ = Bytes.from(`0x${key.key()}`);
      const value_ = Bytes.from(privateKey);
      const encKey = Bytes.slice(key_, 0, 16);
      const macKey = Bytes.slice(key_, 16, 32);
      const ciphertext = ctr(encKey, key.iv).encrypt(value_);
      const mac = Hash.keccak256(Bytes.concat(macKey, ciphertext));
      return {
          crypto: {
              cipher: 'aes-128-ctr',
              ciphertext: Bytes.toHex(ciphertext).slice(2),
              cipherparams: { iv: Bytes.toHex(key.iv).slice(2) },
              kdf: key.kdf,
              kdfparams: key.kdfparams,
              mac: Bytes.toHex(mac).slice(2),
          },
          id,
          version: 3,
      };
  }
  \<close>
  The identifier is drawn first, so the generator has moved on also when a later step
  throws.
\<close>

definition encrypt ::
  "primitives \<Rightarrow> hex_or_bytes \<Rightarrow> key \<Rightarrow> encrypt_options \<Rightarrow> entropy
     \<Rightarrow> (error + keystore) \<times> entropy" where
  "encrypt P privateKey k options g =
     (case (case encrypt_options.id' options of
              None \<Rightarrow> randomUUID P g
            | Some i \<Rightarrow> (i, g)) of
        (ident, g') \<Rightarrow>
          ((case Bytes_from (Hex (''0x'' @ key.key k ())) of
              Inl e \<Rightarrow> Inl e
            | Inr key' \<Rightarrow>
               (case Bytes_from privateKey of
                  Inl e \<Rightarrow> Inl e
                | Inr value' \<Rightarrow>
                   (let encKey = Bytes_slice key' 0 16;
                        macKey = Bytes_slice key' 16 32 in
                    (case ctr_encrypt P encKey (key.iv k) value' of
                       None \<Rightarrow> Inl CipherError
                     | Some ciphertext' \<Rightarrow>
                        (let mac' = keccak256 P (Bytes_concat macKey ciphertext') in
                         Inr \<lparr> crypto =
                                 \<lparr> cipher = ''aes-128-ctr'',
                                   ciphertext = drop 2 (Bytes_toHex ciphertext'),
                                   cipherparams =
                                     \<lparr> cipherparams.iv = drop 2 (Bytes_toHex (key.iv k)) \<rparr>,
                                   kdf = key.kdf k,
                                   kdfparams = key.kdfparams k,
                                   mac = drop 2 (Bytes_toHex mac') \<rparr>,
                               id' = ident,
                               version = 3 \<rparr>))))), g'))"

text \<open>
  \<^verbatim>\<open>
  export function pbkdf2(options) {
      const { iv, iterations = 262_144, password } = options;
      const salt = options.salt ? Bytes.from(options.salt) : Bytes.random(32);
      const key = Bytes.toHex(pbkdf2_noble(sha256, password, salt,
                                           { c: iterations, dkLen: 32 })).slice(2);
      return defineKey({
          iv,
          key: () => key,
          kdfparams: { c: iterations, dklen: 32, prf: 'hmac-sha256',
                       salt: Bytes.toHex(salt).slice(2) },
          kdf: 'pbkdf2',
      });
  }
  \<close>
  \<^verbatim>\<open>pbkdf2Async\<close> is the same text with \<^verbatim>\<open>await pbkdf2Async_noble\<close> in place of
  \<^verbatim>\<open>pbkdf2_noble\<close>.
\<close>

definition pbkdf2 ::
  "primitives \<Rightarrow> pbkdf2_options \<Rightarrow> entropy \<Rightarrow> (error + key) \<times> entropy" where
  "pbkdf2 P options g =
     (let iterations' = (case iterations options of None \<Rightarrow> 262144 | Some i \<Rightarrow> i) in
      case from_or_random (pbkdf2_options.salt options) 32 g of
        (Inl e, g') \<Rightarrow> (Inl e, g')
      | (Inr salt', g') \<Rightarrow>
         (case pbkdf2_noble P (pbkdf2_options.password options) salt' iterations' 32 of
            None \<Rightarrow> (Inl KdfError, g')
          | Some derived \<Rightarrow>
             (let key' = drop 2 (Bytes_toHex derived) in
              defineKey
                \<lparr> key_value.iv = pbkdf2_options.iv options,
                  key = (\<lambda>_. key'),
                  kdfparams = Pbkdf2 \<lparr> c = iterations', dklen = 32, prf = ''hmac-sha256'',
                                       salt = drop 2 (Bytes_toHex salt') \<rparr>,
                  kdf = ''pbkdf2'' \<rparr> g')))"

definition pbkdf2Async ::
  "primitives \<Rightarrow> pbkdf2_options \<Rightarrow> entropy \<Rightarrow> (error + key) \<times> entropy" where
  "pbkdf2Async P options g =
     (let iterations' = (case iterations options of None \<Rightarrow> 262144 | Some i \<Rightarrow> i) in
      case from_or_random (pbkdf2_options.salt options) 32 g of
        (Inl e, g') \<Rightarrow> (Inl e, g')
      | (Inr salt', g') \<Rightarrow>
         (case pbkdf2Async_noble P (pbkdf2_options.password options) salt' iterations' 32 of
            None \<Rightarrow> (Inl KdfError, g')
          | Some derived \<Rightarrow>
             (let key' = drop 2 (Bytes_toHex derived) in
              defineKey
                \<lparr> key_value.iv = pbkdf2_options.iv options,
                  key = (\<lambda>_. key'),
                  kdfparams = Pbkdf2 \<lparr> c = iterations', dklen = 32, prf = ''hmac-sha256'',
                                       salt = drop 2 (Bytes_toHex salt') \<rparr>,
                  kdf = ''pbkdf2'' \<rparr> g')))"

text \<open>
  \<^verbatim>\<open>
  export function scrypt(options) {
      const { iv, n = 262_144, password } = options;
      const p = 8;
      const r = 1;
      const salt = options.salt ? Bytes.from(options.salt) : Bytes.random(32);
      const key = Bytes.toHex(scrypt_noble(password, salt,
                                           { N: n, dkLen: 32, r, p })).slice(2);
      return defineKey({
          iv,
          key: () => key,
          kdfparams: { dklen: 32, n, p, r, salt: Bytes.toHex(salt).slice(2) },
          kdf: 'scrypt',
      });
  }
  \<close>
  \<^verbatim>\<open>scryptAsync\<close> is the same text with \<^verbatim>\<open>await scryptAsync_noble\<close> in place of
  \<^verbatim>\<open>scrypt_noble\<close>.
\<close>

definition scrypt ::
  "primitives \<Rightarrow> scrypt_options \<Rightarrow> entropy \<Rightarrow> (error + key) \<times> entropy" where
  "scrypt P options g =
     (let n' = (case scrypt_options.n options of None \<Rightarrow> 262144 | Some i \<Rightarrow> i);
          p' = 8;
          r' = 1 in
      case from_or_random (scrypt_options.salt options) 32 g of
        (Inl e, g') \<Rightarrow> (Inl e, g')
      | (Inr salt', g') \<Rightarrow>
         (case scrypt_noble P (scrypt_options.password options) salt' n' 32 r' p' of
            None \<Rightarrow> (Inl KdfError, g')
          | Some derived \<Rightarrow>
             (let key' = drop 2 (Bytes_toHex derived) in
              defineKey
                \<lparr> key_value.iv = scrypt_options.iv options,
                  key = (\<lambda>_. key'),
                  kdfparams = Scrypt \<lparr> dklen = 32, n = n', p = p', r = r',
                                       salt = drop 2 (Bytes_toHex salt') \<rparr>,
                  kdf = ''scrypt'' \<rparr> g')))"

definition scryptAsync ::
  "primitives \<Rightarrow> scrypt_options \<Rightarrow> entropy \<Rightarrow> (error + key) \<times> entropy" where
  "scryptAsync P options g =
     (let n' = (case scrypt_options.n options of None \<Rightarrow> 262144 | Some i \<Rightarrow> i);
          p' = 8;
          r' = 1 in
      case from_or_random (scrypt_options.salt options) 32 g of
        (Inl e, g') \<Rightarrow> (Inl e, g')
      | (Inr salt', g') \<Rightarrow>
         (case scryptAsync_noble P (scrypt_options.password options) salt' n' 32 r' p' of
            None \<Rightarrow> (Inl KdfError, g')
          | Some derived \<Rightarrow>
             (let key' = drop 2 (Bytes_toHex derived) in
              defineKey
                \<lparr> key_value.iv = scrypt_options.iv options,
                  key = (\<lambda>_. key'),
                  kdfparams = Scrypt \<lparr> dklen = 32, n = n', p = p', r = r',
                                       salt = drop 2 (Bytes_toHex salt') \<rparr>,
                  kdf = ''scrypt'' \<rparr> g')))"

section \<open>The words of the spec\<close>

text \<open>
  The spec's KeySplitter and IntegrityGuard, written from its sentences:
  "Split \<open>key.material\<close> into \<open>cipherKey = material[0:16]\<close>, \<open>macKey = material[16:32]\<close>" and
  "\<open>compute(macKey, ciphertext)\<close> = Keccak-256 digest of the byte concatenation
  \<open>macKey \<parallel> ciphertext\<close> (macKey first, ciphertext second)". The code is compared with
  them below.
\<close>

definition KeySplitter_split :: "bytes \<Rightarrow> bytes \<times> bytes" where
  "KeySplitter_split material = (take 16 material, take 16 (drop 16 material))"

definition IntegrityGuard_compute :: "primitives \<Rightarrow> bytes \<Rightarrow> bytes \<Rightarrow> bytes" where
  "IntegrityGuard_compute P macKey ciphertext' = keccak256 P (macKey @ ciphertext')"

text \<open>
  A field of the record "is a lowercase hex string without a \<^verbatim>\<open>0x\<close> prefix" when each of
  its characters is one of the sixteen lower-case digits.
\<close>

definition lowercase_hex :: "string \<Rightarrow> bool" where
  "lowercase_hex s = list_all (\<lambda>ch. ch \<in> set ''0123456789abcdef'') s"

text \<open>
  Flipping bit \<open>i\<close> of a byte array, counted from the least significant bit of the first
  byte: the tampering of the spec's tamper-detection property.
\<close>

definition flip_bit :: "nat \<Rightarrow> bytes \<Rightarrow> bytes" where
  "flip_bit i bs = bs[i div 8 := (bs ! (i div 8)) XOR push_bit (i mod 8) 1]"

text \<open>
  What the spec's CipherEngine promises of the cipher at one key, iv and plaintext: if
  encryption returns a ciphertext, decryption of it returns the plaintext
  ("encryption and decryption are the same transformation"), and the ciphertext is as long
  as the plaintext ("output length equals input length").
\<close>

definition ctr_inverts :: "primitives \<Rightarrow> bytes \<Rightarrow> bytes \<Rightarrow> bytes \<Rightarrow> bool" where
  "ctr_inverts P encKey v data =
     (case ctr_encrypt P encKey v data of
        None \<Rightarrow> True
      | Some ct \<Rightarrow> ctr_decrypt P encKey v ct = Some data)"

definition ctr_keeps_length :: "primitives \<Rightarrow> bytes \<Rightarrow> bytes \<Rightarrow> bytes \<Rightarrow> bool" where
  "ctr_keeps_length P encKey v data =
     (case ctr_encrypt P encKey v data of
        None \<Rightarrow> True
      | Some ct \<Rightarrow> length ct = length data)"

section \<open>An instance of the primitives\<close>

text \<open>
  The theorems hold for all primitives. To apply them to concrete inputs some instance is
  needed; this one is small enough to evaluate. It is not AES, Keccak, PBKDF2 or scrypt: the
  cipher adds a key stream made of the key and the iv to the data and refuses a key or an iv
  that is not 16 bytes long, the digest is the first 32 bytes of the zero-padded message,
  and a derivation returns \<open>dkLen\<close> bytes made of the password, the salt and the cost, and
  refuses a cost that is too small.
\<close>

fun toy_stream :: "bytes \<Rightarrow> bytes \<Rightarrow> nat \<Rightarrow> bytes \<Rightarrow> bytes" where
  "toy_stream encKey v i [] = []"
| "toy_stream encKey v i (b # bs) =
     (b XOR (encKey ! (i mod 16)) XOR (v ! (i mod 16))) # toy_stream encKey v (Suc i) bs"

definition toy_ctr :: "bytes \<Rightarrow> bytes \<Rightarrow> bytes \<Rightarrow> bytes option" where
  "toy_ctr encKey v data =
     (if length encKey = 16 \<and> length v = 16 then Some (toy_stream encKey v 0 data) else None)"

definition toy_keccak256 :: "bytes \<Rightarrow> bytes" where
  "toy_keccak256 m = take 32 (m @ replicate 32 0)"

definition toy_pbkdf2 :: "string \<Rightarrow> bytes \<Rightarrow> int \<Rightarrow> int \<Rightarrow> bytes option" where
  "toy_pbkdf2 pw s cost dkLen =
     (if cost < 1 then None
      else Some (map (\<lambda>i. ((of_int cost # map (\<lambda>ch. of_nat (of_char ch)) pw)
                              ! (i mod (1 + length pw)))
                          XOR ((s @ replicate (nat dkLen) 0) ! i))
                   [0..<nat dkLen]))"

definition toy_scrypt ::
  "string \<Rightarrow> bytes \<Rightarrow> int \<Rightarrow> int \<Rightarrow> int \<Rightarrow> int \<Rightarrow> bytes option" where
  "toy_scrypt pw s cost dkLen r' p' =
     (if cost < 2 then None
      else Some (map (\<lambda>i. ((of_int (cost + r' + p') # map (\<lambda>ch. of_nat (of_char ch)) pw)
                              ! (i mod (1 + length pw)))
                          XOR ((s @ replicate (nat dkLen) 0) ! i))
                   [0..<nat dkLen]))"

definition toy_randomUUID :: "entropy \<Rightarrow> string \<times> entropy" where
  "toy_randomUUID g = (case Bytes_random 16 g of (b, g') \<Rightarrow> (drop 2 (Bytes_toHex b), g'))"

definition toy_primitives :: primitives where
  "toy_primitives =
     \<lparr> keccak256 = toy_keccak256,
       ctr_encrypt = toy_ctr,
       ctr_decrypt = toy_ctr,
       pbkdf2_noble = toy_pbkdf2,
       pbkdf2Async_noble = toy_pbkdf2,
       scrypt_noble = toy_scrypt,
       scryptAsync_noble = toy_scrypt,
       randomUUID = toy_randomUUID \<rparr>"

definition zero_entropy :: entropy where
  "zero_entropy = (\<lambda>i. 0)"

text \<open>
  The inputs of the spec's concrete vector, with a shorter private key: password
  \<^verbatim>\<open>testpassword\<close>, two iterations, a salt of 32 zero bytes and an iv of 16 zero bytes.
\<close>

definition vector_options :: pbkdf2_options where
  "vector_options =
     \<lparr> pbkdf2_options.iv = Some (Bytes (replicate 16 0)),
       iterations = Some 2,
       password = ''testpassword'',
       salt = Some (Bytes (replicate 32 0)) \<rparr>"

definition vector_scrypt_options :: scrypt_options where
  "vector_scrypt_options =
     \<lparr> scrypt_options.iv = Some (Bytes (replicate 16 0)),
       n = Some 2,
       password = ''testpassword'',
       salt = Some (Bytes (replicate 32 0)) \<rparr>"

definition vector_material :: bytes where
  "vector_material =
     [2, 116, 101, 115, 116, 112, 97, 115, 115, 119, 111, 114, 100, 2, 116, 101,
      115, 116, 112, 97, 115, 115, 119, 111, 114, 100, 2, 116, 101, 115, 116, 112]"

definition vector_key :: key where
  "vector_key =
     \<lparr> key.iv = replicate 16 0,
       key = (\<lambda>u. ''027465737470617373776f7264027465737470617373776f7264027465737470''),
       kdfparams = Pbkdf2 \<lparr> c = 2, dklen = 32, prf = ''hmac-sha256'',
                             salt = replicate 64 (CHR ''0'') \<rparr>,
       kdf = ''pbkdf2'' \<rparr>"

definition vector_privateKey :: hex_or_bytes where
  "vector_privateKey = Hex ''0x01020304''"

text \<open>
  The record that \<open>encrypt\<close> returns for the vector under the instance above, and the same
  record with the first digit of its mac changed.
\<close>

definition vector_keystore :: keystore where
  "vector_keystore =
     \<lparr> crypto =
         \<lparr> cipher = ''aes-128-ctr'',
           ciphertext = ''03766677'',
           cipherparams = \<lparr> cipherparams.iv = ''00000000000000000000000000000000'' \<rparr>,
           kdf = ''pbkdf2'',
           kdfparams = Pbkdf2 \<lparr> c = 2, dklen = 32, prf = ''hmac-sha256'',
                                 salt = replicate 64 (CHR ''0'') \<rparr>,
           mac = ''737470617373776f726402746573747003766677000000000000000000000000'' \<rparr>,
       id' = ''id-1'',
       version = 3 \<rparr>"

definition tampered_keystore :: keystore where
  "tampered_keystore =
     vector_keystore
       \<lparr> crypto := (crypto vector_keystore)
           \<lparr> mac := ''837470617373776f726402746573747003766677000000000000000000000000'' \<rparr> \<rparr>"

text \<open>
  The vector's record with another iv stored in it than the key carries.
\<close>

definition foreign_iv_keystore :: keystore where
  "foreign_iv_keystore =
     vector_keystore
       \<lparr> crypto := (crypto vector_keystore)
           \<lparr> cipherparams := \<lparr> cipherparams.iv = ''ffffffffffffffffffffffffffffffff'' \<rparr> \<rparr> \<rparr>"

text \<open>
  The vector's record with a version, a cipher and a kdf that the format does not know, and
  a \<open>defineKey\<close> argument with an iv of three bytes.
\<close>

definition unsupported_keystore :: keystore where
  "unsupported_keystore =
     vector_keystore
       \<lparr> crypto := (crypto vector_keystore) \<lparr> cipher := ''aes-256-gcm'', kdf := ''bcrypt'' \<rparr>,
         version := 4 \<rparr>"

definition vector_secret :: "unit \<Rightarrow> string" where
  "vector_secret u = ''027465737470617373776f7264027465737470617373776f7264027465737470''"

definition short_iv_value :: key_value where
  "short_iv_value =
     \<lparr> key_value.iv = Some (Bytes [1, 2, 3]),
       key = vector_secret,
       kdfparams = Pbkdf2 \<lparr> c = 2, dklen = 32, prf = ''hmac-sha256'',
                             salt = replicate 64 (CHR ''0'') \<rparr>,
       kdf = ''pbkdf2'' \<rparr>"

section \<open>The byte codec: encoding and decoding\<close>

lemma charCodeToBase16_digit:
  assumes "d < 16"
  shows "charCodeToBase16 (''0123456789abcdef'' ! d) = Some d"
proof -
  from assms have "d \<in> {0, 1, 2, 3, 4, 5, 6, 7, 8, 9, 10, 11, 12, 13, 14, 15}"
    by (simp; arith)
  then show ?thesis
    by (elim insertE emptyE) (simp_all add: charCodeToBase16_def)
qed

lemma digit_lower:
  assumes "d < 16"
  shows "''0123456789abcdef'' ! d \<in> set ''0123456789abcdef''"
proof -
  from assms have "d \<in> {0, 1, 2, 3, 4, 5, 6, 7, 8, 9, 10, 11, 12, 13, 14, 15}"
    by (simp; arith)
  then show ?thesis
    by (elim insertE emptyE) simp_all
qed

lemma unat_byte_div: "unat (b :: byte) div 16 < 16"
proof -
  have "unat b < 2 ^ LENGTH(8)" by (rule unsigned_less)
  then show ?thesis by simp
qed

lemma byte_of_nibbles: "of_nat (unat (b :: byte) div 16 * 16 + unat b mod 16) = b"
  by simp

lemma length_hexes: "length (hexes b) = 2"
  by (simp add: hexes_def)

lemma fromHexString_hexes:
  "fromHexString (hexes b @ rest) =
     (case fromHexString rest of Inl e \<Rightarrow> Inl e | Inr bs \<Rightarrow> Inr (b # bs))"
  by (simp add: hexes_def charCodeToBase16_digit unat_byte_div byte_of_nibbles del: nth_Cons_numeral split: sum.splits)

lemma fromHexString_concat: "fromHexString (concat (map hexes bs)) = Inr bs"
  by (induction bs) (simp_all add: fromHexString_hexes)

lemma length_concat_hexes: "length (concat (map hexes bs)) = 2 * length bs"
  by (induction bs) (simp_all add: length_hexes)

lemma drop_toHex: "drop 2 (Bytes_toHex bs) = concat (map hexes bs)"
  by (simp add: Bytes_toHex_def)

lemma from_toHex: "Bytes_from (Hex (''0x'' @ drop 2 (Bytes_toHex bs))) = Inr bs"
  by (simp add: drop_toHex Bytes_fromHex_def length_concat_hexes fromHexString_concat)

lemma from_toHex_full: "Bytes_from (Hex (Bytes_toHex bs)) = Inr bs"
  by (simp add: Bytes_toHex_def Bytes_fromHex_def length_concat_hexes fromHexString_concat)


section \<open>What \<open>decrypt\<close> and \<open>encrypt\<close> compute\<close>

lemma decrypt_decoded:
  assumes "Bytes_from (Hex (''0x'' @ key.key k ())) = Inr material"
    and "Bytes_from (Hex (''0x'' @ ciphertext (crypto ks))) = Inr ct"
    and "Bytes_from (Hex (''0x'' @ mac (crypto ks))) = Inr stored"
  shows "decrypt P ks k options =
           (if keccak256 P (Bytes_slice material 16 32 @ ct) \<noteq> stored then Inl CorruptKeystore
            else case ctr_decrypt P (Bytes_slice material 0 16) (key.iv k) ct of
                   None \<Rightarrow> Inl CipherError
                 | Some data \<Rightarrow>
                     if (case as options of None \<Rightarrow> ''Hex'' | Some a \<Rightarrow> a) = ''Hex''
                     then Inr (Hex (Bytes_toHex data)) else Inr (Bytes data))"
  using assms
  by (simp add: decrypt_def Bytes_concat_def Bytes_isEqual_def Let_def split: option.splits)

lemma decrypt_Inr:
  assumes "decrypt P ks k options = Inr out"
  shows "\<exists>material ct data.
           Bytes_from (Hex (''0x'' @ key.key k ())) = Inr material \<and>
           Bytes_from (Hex (''0x'' @ ciphertext (crypto ks))) = Inr ct \<and>
           Bytes_from (Hex (''0x'' @ mac (crypto ks)))
             = Inr (keccak256 P (Bytes_slice material 16 32 @ ct)) \<and>
           ctr_decrypt P (Bytes_slice material 0 16) (key.iv k) ct = Some data \<and>
           out = (if (case as options of None \<Rightarrow> ''Hex'' | Some a \<Rightarrow> a) = ''Hex''
                  then Hex (Bytes_toHex data) else Bytes data)"
  using assms
  by (auto simp: decrypt_def Bytes_concat_def Bytes_isEqual_def Let_def
           split: sum.splits option.splits if_splits)

lemma encrypt_Inr:
  assumes "fst (encrypt P privateKey k eo g) = Inr ks"
  shows "\<exists>material pk ct.
           Bytes_from (Hex (''0x'' @ key.key k ())) = Inr material \<and>
           Bytes_from privateKey = Inr pk \<and>
           ctr_encrypt P (Bytes_slice material 0 16) (key.iv k) pk = Some ct \<and>
           crypto ks =
             \<lparr> cipher = ''aes-128-ctr'',
               ciphertext = drop 2 (Bytes_toHex ct),
               cipherparams = \<lparr> cipherparams.iv = drop 2 (Bytes_toHex (key.iv k)) \<rparr>,
               kdf = key.kdf k,
               kdfparams = key.kdfparams k,
               mac = drop 2 (Bytes_toHex (keccak256 P (Bytes_slice material 16 32 @ ct))) \<rparr> \<and>
           version ks = 3"
  using assms
  by (auto simp: encrypt_def Bytes_concat_def Let_def
           split: sum.splits option.splits prod.splits)

section \<open>The MAC gates decryption\<close>

text \<open>
  Claim C1. Take a key whose material has the 32 bytes of a derived key and a record whose
  ciphertext and mac fields are hex strings. Whenever the Keccak-256 digest of \<open>macKey\<close>
  followed by the ciphertext bytes differs from the mac field, \<open>decrypt\<close> fails with
  \<open>CorruptKeystore\<close>, and it does so whatever the cipher's decryption is: the cipher has no
  part in the result. Conversely \<open>decrypt\<close> returns a value only for a record whose mac field
  is that digest, whatever the key and the record are.
\<close>

theorem decrypt_verifies_mac_first:
  "(Bytes_from (Hex (''0x'' @ key.key k ())) = Inr material \<longrightarrow>
    length material = 32 \<longrightarrow>
    Bytes_from (Hex (''0x'' @ ciphertext (crypto ks))) = Inr ct \<longrightarrow>
    Bytes_from (Hex (''0x'' @ mac (crypto ks))) = Inr stored \<longrightarrow>
    keccak256 P (Bytes_concat (Bytes_slice material 16 32) ct) \<noteq> stored \<longrightarrow>
    (\<forall>dec. decrypt (P\<lparr>ctr_decrypt := dec\<rparr>) ks k options = Inl CorruptKeystore))
   \<and>
   (decrypt P ks k options = Inr out \<longrightarrow>
    (\<exists>material ct.
       Bytes_from (Hex (''0x'' @ key.key k ())) = Inr material \<and>
       Bytes_from (Hex (''0x'' @ ciphertext (crypto ks))) = Inr ct \<and>
       Bytes_from (Hex (''0x'' @ mac (crypto ks)))
         = Inr (keccak256 P (Bytes_concat (Bytes_slice material 16 32) ct))))"
proof (intro conjI impI allI)
  fix dec
  assume "Bytes_from (Hex (''0x'' @ key.key k ())) = Inr material"
    and "length material = 32"
    and "Bytes_from (Hex (''0x'' @ ciphertext (crypto ks))) = Inr ct"
    and "Bytes_from (Hex (''0x'' @ mac (crypto ks))) = Inr stored"
    and "keccak256 P (Bytes_concat (Bytes_slice material 16 32) ct) \<noteq> stored"
  then show "decrypt (P\<lparr>ctr_decrypt := dec\<rparr>) ks k options = Inl CorruptKeystore"
    by (simp add: decrypt_decoded [where material = material and ct = ct and stored = stored]
          Bytes_concat_def)
next
  assume "decrypt P ks k options = Inr out"
  from decrypt_Inr [OF this] show "\<exists>material ct.
       Bytes_from (Hex (''0x'' @ key.key k ())) = Inr material \<and>
       Bytes_from (Hex (''0x'' @ ciphertext (crypto ks))) = Inr ct \<and>
       Bytes_from (Hex (''0x'' @ mac (crypto ks)))
         = Inr (keccak256 P (Bytes_concat (Bytes_slice material 16 32) ct))"
    by (auto simp: Bytes_concat_def)
qed

text \<open>
  The theorem at the vector: the record with the changed mac is refused, the untouched one
  is decrypted, and its mac is the digest.
\<close>

theorem decrypt_verifies_mac_first_witness:
  "decrypt (toy_primitives\<lparr>ctr_decrypt := toy_ctr\<rparr>) tampered_keystore vector_key
     \<lparr>as = None\<rparr> = Inl CorruptKeystore \<and>
   decrypt toy_primitives vector_keystore vector_key \<lparr>as = None\<rparr> = Inr (Hex ''0x01020304'') \<and>
   Bytes_from (Hex (''0x'' @ mac (crypto vector_keystore)))
     = Inr (keccak256 toy_primitives
              (Bytes_concat (Bytes_slice vector_material 16 32) [3, 118, 102, 119]))"
proof -
  have k: "Bytes_from (Hex (''0x'' @ key.key vector_key ())) = Inr vector_material"
    by code_simp
  have l: "length vector_material = 32"
    by code_simp
  have c: "Bytes_from (Hex (''0x'' @ ciphertext (crypto tampered_keystore)))
             = Inr [3, 118, 102, 119]"
    by code_simp
  let ?stored = "[131, 116, 112, 97, 115, 115, 119, 111, 114, 100, 2, 116, 101, 115, 116, 112,
                   3, 118, 102, 119, 0, 0, 0, 0, 0, 0, 0, 0, 0, 0, 0, 0] :: bytes"
  have m: "Bytes_from (Hex (''0x'' @ mac (crypto tampered_keystore))) = Inr ?stored"
    by code_simp
  have ne: "keccak256 toy_primitives (Bytes_concat (Bytes_slice vector_material 16 32)
              [3, 118, 102, 119]) \<noteq> ?stored"
    by code_simp
  have ok: "decrypt toy_primitives vector_keystore vector_key \<lparr>as = None\<rparr>
              = Inr (Hex ''0x01020304'')"
    by code_simp
  from decrypt_verifies_mac_first [THEN conjunct1, rule_format, OF k l c m ne]
  have "decrypt (toy_primitives\<lparr>ctr_decrypt := toy_ctr\<rparr>) tampered_keystore vector_key
          \<lparr>as = None\<rparr> = Inl CorruptKeystore" .
  moreover
  from decrypt_verifies_mac_first [THEN conjunct2, rule_format, OF ok]
  obtain material ct where "Bytes_from (Hex (''0x'' @ key.key vector_key ())) = Inr material"
    and "Bytes_from (Hex (''0x'' @ ciphertext (crypto vector_keystore))) = Inr ct"
    and mm: "Bytes_from (Hex (''0x'' @ mac (crypto vector_keystore)))
         = Inr (keccak256 toy_primitives (Bytes_concat (Bytes_slice material 16 32) ct))"
    by blast
  then have "material = vector_material" "ct = [3, 118, 102, 119]"
    using k by (simp_all add: vector_keystore_def Bytes_fromHex_def charCodeToBase16_def)
  ultimately show ?thesis using ok mm by simp
qed

section \<open>Round trip\<close>

lemma encrypt_succeeds:
  assumes "Bytes_from (Hex (''0x'' @ key.key k ())) = Inr material"
    and "Bytes_from privateKey = Inr pk"
    and "ctr_encrypt P (Bytes_slice material 0 16) (key.iv k) pk = Some ct"
  shows "\<exists>ks. fst (encrypt P privateKey k eo g) = Inr ks"
  using assms
  by (simp add: encrypt_def Let_def split: option.splits prod.splits)

lemma pbkdf2_supplied:
  assumes "pbkdf2_options.salt po = Some (Bytes sb)"
    and "pbkdf2_options.iv po = Some (Bytes vb)"
  shows "fst (pbkdf2 P po gA) = fst (pbkdf2 P po gB)"
  using assms
  by (simp add: pbkdf2_def Let_def defineKey_def from_or_random_def split: option.splits)

lemma scrypt_supplied:
  assumes "scrypt_options.salt so = Some (Bytes sb)"
    and "scrypt_options.iv so = Some (Bytes vb)"
  shows "fst (scrypt P so gA) = fst (scrypt P so gB)"
  using assms
  by (simp add: scrypt_def Let_def defineKey_def from_or_random_def split: option.splits)

text \<open>
  Claim C2. Let \<open>encrypt\<close> return the record \<open>ks\<close> for the private key bytes \<open>pk\<close> and the
  key \<open>k\<close>, and let the cipher, at the cipher key and iv of \<open>k\<close>, decrypt what it
  encrypted. Then \<open>decrypt\<close> of \<open>ks\<close> with the same \<open>k\<close> succeeds and returns \<open>pk\<close>: the bytes
  themselves when \<^verbatim>\<open>as: 'Bytes'\<close> is requested, their hex encoding by default and for
  \<^verbatim>\<open>as: 'Hex'\<close>. Nothing is assumed of the KDF, the salt, the iv or the digest. The same
  holds with a key derived again, by \<open>pbkdf2\<close> or \<open>scrypt\<close>, from the options that \<open>k\<close> was
  derived from, when these supply the salt and the iv.
\<close>

theorem encrypt_decrypt_roundtrip:
  assumes "fst (encrypt P privateKey k eo g) = Inr ks"
    and "Bytes_from (Hex (''0x'' @ key.key k ())) = Inr material"
    and "Bytes_from privateKey = Inr pk"
    and "ctr_inverts P (Bytes_slice material 0 16) (key.iv k) pk"
  shows "decrypt P ks k \<lparr>as = Some ''Bytes''\<rparr> = Inr (Bytes pk) \<and>
         decrypt P ks k \<lparr>as = None\<rparr> = Inr (Hex (Bytes_toHex pk)) \<and>
         decrypt P ks k \<lparr>as = Some ''Hex''\<rparr> = Inr (Hex (Bytes_toHex pk)) \<and>
         (\<forall>po sb vb gA gB k2.
            pbkdf2_options.salt po = Some (Bytes sb) \<longrightarrow>
            pbkdf2_options.iv po = Some (Bytes vb) \<longrightarrow>
            fst (pbkdf2 P po gA) = Inr k \<longrightarrow> fst (pbkdf2 P po gB) = Inr k2 \<longrightarrow>
            decrypt P ks k2 \<lparr>as = Some ''Bytes''\<rparr> = Inr (Bytes pk)) \<and>
         (\<forall>so sb vb gA gB k2.
            scrypt_options.salt so = Some (Bytes sb) \<longrightarrow>
            scrypt_options.iv so = Some (Bytes vb) \<longrightarrow>
            fst (scrypt P so gA) = Inr k \<longrightarrow> fst (scrypt P so gB) = Inr k2 \<longrightarrow>
            decrypt P ks k2 \<lparr>as = Some ''Bytes''\<rparr> = Inr (Bytes pk))"
proof -
  from encrypt_Inr [OF assms(1)] assms(2,3)
  obtain ct where enc: "ctr_encrypt P (Bytes_slice material 0 16) (key.iv k) pk = Some ct"
    and c: "ciphertext (crypto ks) = drop 2 (Bytes_toHex ct)"
    and m: "mac (crypto ks)
              = drop 2 (Bytes_toHex (keccak256 P (Bytes_slice material 16 32 @ ct)))"
    by auto
  from enc assms(4) have dec: "ctr_decrypt P (Bytes_slice material 0 16) (key.iv k) ct = Some pk"
    by (simp add: ctr_inverts_def)
  have dc: "Bytes_from (Hex (''0x'' @ ciphertext (crypto ks))) = Inr ct"
    unfolding c by (rule from_toHex)
  have dm: "Bytes_from (Hex (''0x'' @ mac (crypto ks)))
              = Inr (keccak256 P (Bytes_slice material 16 32 @ ct))"
    unfolding m by (rule from_toHex)
  have same: "decrypt P ks k \<lparr>as = Some ''Bytes''\<rparr> = Inr (Bytes pk)"
    "decrypt P ks k \<lparr>as = None\<rparr> = Inr (Hex (Bytes_toHex pk))"
    "decrypt P ks k \<lparr>as = Some ''Hex''\<rparr> = Inr (Hex (Bytes_toHex pk))"
    by (simp_all add: decrypt_decoded [OF assms(2) dc dm] dec)
  have again_pbkdf2: "decrypt P ks k2 \<lparr>as = Some ''Bytes''\<rparr> = Inr (Bytes pk)"
    if "pbkdf2_options.salt po = Some (Bytes sb)" "pbkdf2_options.iv po = Some (Bytes vb)"
      "fst (pbkdf2 P po gA) = Inr k" "fst (pbkdf2 P po gB) = Inr k2"
    for po sb vb gA gB k2
  proof -
    from pbkdf2_supplied [OF that(1,2), of P gA gB] that(3,4) have "k2 = k" by simp
    with same(1) show ?thesis by simp
  qed
  have again_scrypt: "decrypt P ks k2 \<lparr>as = Some ''Bytes''\<rparr> = Inr (Bytes pk)"
    if "scrypt_options.salt so = Some (Bytes sb)" "scrypt_options.iv so = Some (Bytes vb)"
      "fst (scrypt P so gA) = Inr k" "fst (scrypt P so gB) = Inr k2"
    for so sb vb gA gB k2
  proof -
    from scrypt_supplied [OF that(1,2), of P gA gB] that(3,4) have "k2 = k" by simp
    with same(1) show ?thesis by simp
  qed
  from same again_pbkdf2 again_scrypt show ?thesis by blast
qed

text \<open>
  The round trip at the vector, with the key at hand and with the key derived again while
  the random generator is in another state.
\<close>

theorem encrypt_decrypt_roundtrip_witness:
  "fst (encrypt toy_primitives vector_privateKey vector_key \<lparr>encrypt_options.id' = Some ''id-1''\<rparr>
         zero_entropy) = Inr vector_keystore \<and>
   decrypt toy_primitives vector_keystore vector_key \<lparr>as = Some ''Bytes''\<rparr>
     = Inr (Bytes [1, 2, 3, 4]) \<and>
   decrypt toy_primitives vector_keystore vector_key \<lparr>as = None\<rparr> = Inr (Hex ''0x01020304'') \<and>
   fst (pbkdf2 toy_primitives vector_options zero_entropy) = Inr vector_key \<and>
   (\<exists>k2. fst (pbkdf2 toy_primitives vector_options (\<lambda>i. 7)) = Inr k2 \<and>
      decrypt toy_primitives vector_keystore k2 \<lparr>as = Some ''Bytes''\<rparr>
        = Inr (Bytes [1, 2, 3, 4]))"
proof -
  have e: "fst (encrypt toy_primitives vector_privateKey vector_key
                  \<lparr>encrypt_options.id' = Some ''id-1''\<rparr> zero_entropy) = Inr vector_keystore"
    by code_simp
  have k: "Bytes_from (Hex (''0x'' @ key.key vector_key ())) = Inr vector_material"
    by code_simp
  have v: "Bytes_from vector_privateKey = Inr [1, 2, 3, 4]"
    by code_simp
  have i: "ctr_inverts toy_primitives (Bytes_slice vector_material 0 16) (key.iv vector_key)
             [1, 2, 3, 4]"
    by code_simp
  have h: "Bytes_toHex [1, 2, 3, 4] = ''0x01020304''"
    by code_simp
  have s: "pbkdf2_options.salt vector_options = Some (Bytes (replicate 32 0))"
    and w: "pbkdf2_options.iv vector_options = Some (Bytes (replicate 16 0))"
    by (simp_all add: vector_options_def)
  have dA: "fst (pbkdf2 toy_primitives vector_options zero_entropy) = Inr vector_key"
    by code_simp
  have dB: "fst (pbkdf2 toy_primitives vector_options (\<lambda>i. 7)) = Inr vector_key"
    by code_simp
  note t = encrypt_decrypt_roundtrip [OF e k v i]
  from t [THEN conjunct2, THEN conjunct2, THEN conjunct2, THEN conjunct1, rule_format,
          OF s w dA dB] dB
  have "\<exists>k2. fst (pbkdf2 toy_primitives vector_options (\<lambda>i. 7)) = Inr k2 \<and>
      decrypt toy_primitives vector_keystore k2 \<lparr>as = Some ''Bytes''\<rparr>
        = Inr (Bytes [1, 2, 3, 4])"
    by blast
  with t e h dA show ?thesis
    by simp
qed


section \<open>The record that \<open>encrypt\<close> returns\<close>

lemma lowercase_hex_hexes: "lowercase_hex (hexes b)"
proof -
  have hi: "''0123456789abcdef'' ! (unat b div 16) \<in> set ''0123456789abcdef''"
    by (rule digit_lower [OF unat_byte_div])
  have "unat b mod 16 < 16" by simp
  then have lo: "''0123456789abcdef'' ! (unat b mod 16) \<in> set ''0123456789abcdef''"
    by (rule digit_lower)
  from hi lo show ?thesis
    unfolding lowercase_hex_def hexes_def by (simp only: list_all_Nil_iff list_all_Cons_iff simp_thms)
qed

lemma lowercase_hex_concat: "lowercase_hex (concat (map hexes bs))"
proof (induction bs)
  case Nil
  show ?case by (simp add: lowercase_hex_def)
next
  case (Cons b bs)
  with lowercase_hex_hexes [of b] show ?case
    by (simp only: lowercase_hex_def list.map concat.simps list_all_append simp_thms)
qed

lemma lowercase_hex_toHex: "lowercase_hex (drop 2 (Bytes_toHex bs))"
  unfolding drop_toHex by (rule lowercase_hex_concat)

lemma lowercase_hex_no_prefix:
  assumes "lowercase_hex s"
  shows "take 2 s \<noteq> ''0x''"
proof
  assume "take 2 s = ''0x''"
  then have "CHR ''x'' \<in> set (take 2 s)" by simp
  then have "CHR ''x'' \<in> set s" by (rule in_set_takeD)
  with assms have "CHR ''x'' \<in> set ''0123456789abcdef''"
    unfolding lowercase_hex_def list_all_iff by blast
  then show False by simp
qed

lemma length_toHex: "length (Bytes_toHex bs) = 2 + 2 * length bs"
  by (simp add: Bytes_toHex_def length_concat_hexes)

lemma encrypt_fields:
  assumes "fst (encrypt P privateKey k eo g) = Inr ks"
    and "Bytes_from (Hex (''0x'' @ key.key k ())) = Inr material"
    and "Bytes_from privateKey = Inr pk"
  obtains ct where "ctr_encrypt P (Bytes_slice material 0 16) (key.iv k) pk = Some ct"
    and "ciphertext (crypto ks) = drop 2 (Bytes_toHex ct)"
    and "mac (crypto ks) = drop 2 (Bytes_toHex (keccak256 P (Bytes_slice material 16 32 @ ct)))"
    and "cipherparams.iv (cipherparams (crypto ks)) = drop 2 (Bytes_toHex (key.iv k))"
    and "cipher (crypto ks) = ''aes-128-ctr''"
    and "crypto.kdf (crypto ks) = key.kdf k"
    and "crypto.kdfparams (crypto ks) = key.kdfparams k"
    and "version ks = 3"
proof -
  from encrypt_Inr [OF assms(1)] obtain material' pk' ct where
    *: "Bytes_from (Hex (''0x'' @ key.key k ())) = Inr material'"
       "Bytes_from privateKey = Inr pk'"
       "ctr_encrypt P (Bytes_slice material' 0 16) (key.iv k) pk' = Some ct"
       "crypto ks =
             \<lparr> cipher = ''aes-128-ctr'',
               ciphertext = drop 2 (Bytes_toHex ct),
               cipherparams = \<lparr> cipherparams.iv = drop 2 (Bytes_toHex (key.iv k)) \<rparr>,
               kdf = key.kdf k,
               kdfparams = key.kdfparams k,
               mac = drop 2 (Bytes_toHex (keccak256 P (Bytes_slice material' 16 32 @ ct))) \<rparr>"
       "version ks = 3"
    by blast
  from *(1) assms(2) have m: "material' = material" by simp
  from *(2) assms(3) have p: "pk' = pk" by simp
  show thesis
    by (rule that [of ct]) (simp_all only: *(3-5) [unfolded m p] crypto.simps cipherparams.simps)
qed

text \<open>
  Claim C4. The record that \<open>encrypt\<close> returns has cipher \<^verbatim>\<open>aes-128-ctr\<close> and version 3,
  the kdf tag and kdfparams of the key, and ciphertext, iv and mac fields made of
  lower-case hex digits only, none starting with \<^verbatim>\<open>0x\<close>. For a cipher that keeps the
  length of this plaintext and a digest of 32 bytes, the ciphertext field encodes as many
  bytes as the private key has and the mac field encodes 32 bytes.
\<close>

theorem encrypt_record_shape:
  assumes "fst (encrypt P privateKey k eo g) = Inr ks"
    and "Bytes_from (Hex (''0x'' @ key.key k ())) = Inr material"
    and "Bytes_from privateKey = Inr pk"
    and "ctr_keeps_length P (Bytes_slice material 0 16) (key.iv k) pk"
    and "\<forall>m. length (keccak256 P m) = 32"
  shows "cipher (crypto ks) = ''aes-128-ctr'' \<and> version ks = 3 \<and>
         crypto.kdf (crypto ks) = key.kdf k \<and>
         crypto.kdfparams (crypto ks) = key.kdfparams k \<and>
         lowercase_hex (ciphertext (crypto ks)) \<and> take 2 (ciphertext (crypto ks)) \<noteq> ''0x'' \<and>
         lowercase_hex (cipherparams.iv (cipherparams (crypto ks))) \<and>
         take 2 (cipherparams.iv (cipherparams (crypto ks))) \<noteq> ''0x'' \<and>
         lowercase_hex (mac (crypto ks)) \<and> take 2 (mac (crypto ks)) \<noteq> ''0x'' \<and>
         length (ciphertext (crypto ks)) = 2 * length pk \<and>
         length (mac (crypto ks)) = 64 \<and>
         (\<exists>ct. Bytes_from (Hex (''0x'' @ ciphertext (crypto ks))) = Inr ct \<and>
               length ct = length pk) \<and>
         (\<exists>digest. Bytes_from (Hex (''0x'' @ mac (crypto ks))) = Inr digest \<and>
               length digest = 32) \<and>
         Bytes_from (Hex (''0x'' @ cipherparams.iv (cipherparams (crypto ks)))) = Inr (key.iv k)"
proof -
  from encrypt_fields [OF assms(1-3)]
  obtain ct where enc: "ctr_encrypt P (Bytes_slice material 0 16) (key.iv k) pk = Some ct"
    and c: "ciphertext (crypto ks) = drop 2 (Bytes_toHex ct)"
    and m: "mac (crypto ks) = drop 2 (Bytes_toHex (keccak256 P (Bytes_slice material 16 32 @ ct)))"
    and v: "cipherparams.iv (cipherparams (crypto ks)) = drop 2 (Bytes_toHex (key.iv k))"
    and rest: "cipher (crypto ks) = ''aes-128-ctr''" "crypto.kdf (crypto ks) = key.kdf k"
      "crypto.kdfparams (crypto ks) = key.kdfparams k" "version ks = 3"
    by blast
  from enc assms(4) have len: "length ct = length pk"
    by (simp add: ctr_keeps_length_def)
  from assms(5) have dl: "length (keccak256 P (Bytes_slice material 16 32 @ ct)) = 32"
    by blast
  have dc: "Bytes_from (Hex (''0x'' @ ciphertext (crypto ks))) = Inr ct"
    unfolding c by (rule from_toHex)
  have dm: "Bytes_from (Hex (''0x'' @ mac (crypto ks)))
              = Inr (keccak256 P (Bytes_slice material 16 32 @ ct))"
    unfolding m by (rule from_toHex)
  have dv: "Bytes_from (Hex (''0x'' @ cipherparams.iv (cipherparams (crypto ks))))
              = Inr (key.iv k)"
    unfolding v by (rule from_toHex)
  have lc: "length (ciphertext (crypto ks)) = 2 * length pk"
    unfolding c by (simp add: length_toHex len)
  have lm: "length (mac (crypto ks)) = 64"
    unfolding m by (simp add: length_toHex dl)
  have hx: "lowercase_hex (ciphertext (crypto ks))" "lowercase_hex (mac (crypto ks))"
    "lowercase_hex (cipherparams.iv (cipherparams (crypto ks)))"
    unfolding c m v by (rule lowercase_hex_toHex)+
  note np = hx [THEN lowercase_hex_no_prefix]
  from rest hx np lc lm dc dm dv len dl show ?thesis
    by blast
qed

text \<open>
  The shape of the record at the vector.
\<close>

theorem encrypt_record_shape_witness:
  "cipher (crypto vector_keystore) = ''aes-128-ctr'' \<and> version vector_keystore = 3 \<and>
   crypto.kdf (crypto vector_keystore) = key.kdf vector_key \<and>
   crypto.kdfparams (crypto vector_keystore) = key.kdfparams vector_key \<and>
   lowercase_hex (ciphertext (crypto vector_keystore)) \<and>
   lowercase_hex (mac (crypto vector_keystore)) \<and>
   length (ciphertext (crypto vector_keystore)) = 2 * length [1, 2, 3, 4 :: byte] \<and>
   length (mac (crypto vector_keystore)) = 64"
proof -
  have e: "fst (encrypt toy_primitives vector_privateKey vector_key
                  \<lparr>encrypt_options.id' = Some ''id-1''\<rparr> zero_entropy) = Inr vector_keystore"
    by code_simp
  have k: "Bytes_from (Hex (''0x'' @ key.key vector_key ())) = Inr vector_material"
    by code_simp
  have v: "Bytes_from vector_privateKey = Inr [1, 2, 3, 4]"
    by code_simp
  have l: "ctr_keeps_length toy_primitives (Bytes_slice vector_material 0 16)
             (key.iv vector_key) [1, 2, 3, 4]"
    by code_simp
  have d: "\<forall>m. length (keccak256 toy_primitives m) = 32"
    by (simp add: toy_primitives_def toy_keccak256_def min_def)
  from encrypt_record_shape [OF e k v l d] show ?thesis
    by simp
qed

section \<open>The key split, the MAC, tampering and the stored iv\<close>

lemma slice_as_split:
  "KeySplitter_split material = (Bytes_slice material 0 16, Bytes_slice material 16 32)"
  by (simp add: KeySplitter_split_def Bytes_slice_def)

text \<open>
  Claim C5. For a key whose material has 32 bytes, let \<open>(cipherKey, macKey)\<close> be the
  spec's split \<open>material[0:16]\<close>, \<open>material[16:32]\<close>. Both are 16 bytes long and make up
  the material. Every record that \<open>encrypt\<close> returns holds the ciphertext of the cipher
  under \<open>cipherKey\<close> and, as its mac, the spec's \<open>compute(macKey, ciphertext)\<close>, the digest
  of \<open>macKey\<close> followed by the ciphertext. \<open>encrypt\<close> returns such a record whenever the
  cipher under \<open>cipherKey\<close> returns a ciphertext for the private key, and fails with the
  cipher's error when the cipher refuses. \<open>decrypt\<close> compares the mac field with the same
  \<open>compute(macKey, ciphertext)\<close> and decrypts under the same \<open>cipherKey\<close>. The MAC has 32
  bytes when the digest has.
\<close>

theorem key_split_and_mac_order:
  assumes "Bytes_from (Hex (''0x'' @ key.key k ())) = Inr material"
    and "length material = 32"
    and "KeySplitter_split material = (cipherKey, macKey)"
  shows "length cipherKey = 16 \<and> length macKey = 16 \<and> material = cipherKey @ macKey \<and>
         (\<forall>privateKey eo g ks pk.
            fst (encrypt P privateKey k eo g) = Inr ks \<longrightarrow> Bytes_from privateKey = Inr pk \<longrightarrow>
            (\<exists>ct. ctr_encrypt P cipherKey (key.iv k) pk = Some ct \<and>
                  Bytes_from (Hex (''0x'' @ ciphertext (crypto ks))) = Inr ct \<and>
                  Bytes_from (Hex (''0x'' @ mac (crypto ks)))
                    = Inr (IntegrityGuard_compute P macKey ct))) \<and>
         (\<forall>privateKey eo g pk ct.
            Bytes_from privateKey = Inr pk \<longrightarrow>
            ctr_encrypt P cipherKey (key.iv k) pk = Some ct \<longrightarrow>
            (\<exists>ks. fst (encrypt P privateKey k eo g) = Inr ks \<and>
                  Bytes_from (Hex (''0x'' @ ciphertext (crypto ks))) = Inr ct \<and>
                  Bytes_from (Hex (''0x'' @ mac (crypto ks)))
                    = Inr (IntegrityGuard_compute P macKey ct))) \<and>
         (\<forall>privateKey eo g pk.
            Bytes_from privateKey = Inr pk \<longrightarrow>
            ctr_encrypt P cipherKey (key.iv k) pk = None \<longrightarrow>
            fst (encrypt P privateKey k eo g) = Inl CipherError) \<and>
         (\<forall>ks ct stored options.
            Bytes_from (Hex (''0x'' @ ciphertext (crypto ks))) = Inr ct \<longrightarrow>
            Bytes_from (Hex (''0x'' @ mac (crypto ks))) = Inr stored \<longrightarrow>
            decrypt P ks k options =
              (if IntegrityGuard_compute P macKey ct = stored
               then (case ctr_decrypt P cipherKey (key.iv k) ct of
                       None \<Rightarrow> Inl CipherError
                     | Some data \<Rightarrow>
                         if (case as options of None \<Rightarrow> ''Hex'' | Some a \<Rightarrow> a) = ''Hex''
                         then Inr (Hex (Bytes_toHex data)) else Inr (Bytes data))
               else Inl CorruptKeystore)) \<and>
         ((\<forall>m. length (keccak256 P m) = 32) \<longrightarrow>
            (\<forall>ct. length (IntegrityGuard_compute P macKey ct) = 32))"
proof -
  from assms(3) have ck: "Bytes_slice material 0 16 = cipherKey"
    and mk: "Bytes_slice material 16 32 = macKey"
    by (simp_all add: slice_as_split)
  from assms(2,3) have lens: "length cipherKey = 16" "length macKey = 16"
    "material = cipherKey @ macKey"
    by (auto simp: KeySplitter_split_def)
  have enc: "\<exists>ct. ctr_encrypt P cipherKey (key.iv k) pk = Some ct \<and>
                  Bytes_from (Hex (''0x'' @ ciphertext (crypto ks))) = Inr ct \<and>
                  Bytes_from (Hex (''0x'' @ mac (crypto ks)))
                    = Inr (IntegrityGuard_compute P macKey ct)"
    if e: "fst (encrypt P privateKey k eo g) = Inr ks" and p: "Bytes_from privateKey = Inr pk"
    for privateKey eo g ks pk
  proof -
    from encrypt_fields [OF e assms(1) p]
    obtain ct where c: "ctr_encrypt P (Bytes_slice material 0 16) (key.iv k) pk = Some ct"
      and f: "ciphertext (crypto ks) = drop 2 (Bytes_toHex ct)"
      and m: "mac (crypto ks)
                = drop 2 (Bytes_toHex (keccak256 P (Bytes_slice material 16 32 @ ct)))"
      by blast
    have "Bytes_from (Hex (''0x'' @ ciphertext (crypto ks))) = Inr ct"
      unfolding f by (rule from_toHex)
    moreover have "Bytes_from (Hex (''0x'' @ mac (crypto ks)))
                     = Inr (IntegrityGuard_compute P macKey ct)"
      unfolding m IntegrityGuard_compute_def mk by (rule from_toHex)
    ultimately show ?thesis using c unfolding ck by blast
  qed
  have ret: "\<exists>ks. fst (encrypt P privateKey k eo g) = Inr ks \<and>
                  Bytes_from (Hex (''0x'' @ ciphertext (crypto ks))) = Inr ct \<and>
                  Bytes_from (Hex (''0x'' @ mac (crypto ks)))
                    = Inr (IntegrityGuard_compute P macKey ct)"
    if p: "Bytes_from privateKey = Inr pk"
      and c: "ctr_encrypt P cipherKey (key.iv k) pk = Some ct"
    for privateKey eo g pk ct
  proof -
    from c have c': "ctr_encrypt P (Bytes_slice material 0 16) (key.iv k) pk = Some ct"
      unfolding ck .
    from encrypt_succeeds [OF assms(1) p c']
    obtain ks where e: "fst (encrypt P privateKey k eo g) = Inr ks" by blast
    from enc [OF e p] c obtain "Bytes_from (Hex (''0x'' @ ciphertext (crypto ks))) = Inr ct"
      and "Bytes_from (Hex (''0x'' @ mac (crypto ks)))
             = Inr (IntegrityGuard_compute P macKey ct)"
      by auto
    with e show ?thesis by blast
  qed
  have fail: "fst (encrypt P privateKey k eo g) = Inl CipherError"
    if p: "Bytes_from privateKey = Inr pk"
      and c: "ctr_encrypt P cipherKey (key.iv k) pk = None"
    for privateKey eo g pk
    using assms(1) p c [folded ck]
    by (simp add: encrypt_def Let_def split: prod.splits)
  have dec: "decrypt P ks k options =
              (if IntegrityGuard_compute P macKey ct = stored
               then (case ctr_decrypt P cipherKey (key.iv k) ct of
                       None \<Rightarrow> Inl CipherError
                     | Some data \<Rightarrow>
                         if (case as options of None \<Rightarrow> ''Hex'' | Some a \<Rightarrow> a) = ''Hex''
                         then Inr (Hex (Bytes_toHex data)) else Inr (Bytes data))
               else Inl CorruptKeystore)"
    if c: "Bytes_from (Hex (''0x'' @ ciphertext (crypto ks))) = Inr ct"
      and m: "Bytes_from (Hex (''0x'' @ mac (crypto ks))) = Inr stored"
    for ks ct stored options
    unfolding decrypt_decoded [OF assms(1) c m] ck mk IntegrityGuard_compute_def
    by simp
  have len: "(\<forall>m. length (keccak256 P m) = 32) \<longrightarrow>
            (\<forall>ct. length (IntegrityGuard_compute P macKey ct) = 32)"
    by (simp add: IntegrityGuard_compute_def)
  from lens enc ret fail dec len show ?thesis
    by blast
qed


text \<open>
  The split and the MAC at the vector: \<open>encrypt\<close> returns the vector's record, whose
  ciphertext is the cipher's under the first half of the material and whose mac is the
  digest under the second half.
\<close>

theorem key_split_and_mac_order_witness:
  "fst (encrypt toy_primitives vector_privateKey vector_key \<lparr>encrypt_options.id' = Some ''id-1''\<rparr>
         zero_entropy) = Inr vector_keystore \<and>
   ctr_encrypt toy_primitives
     [2, 116, 101, 115, 116, 112, 97, 115, 115, 119, 111, 114, 100, 2, 116, 101]
     (key.iv vector_key) [1, 2, 3, 4] = Some [3, 118, 102, 119] \<and>
   Bytes_from (Hex (''0x'' @ ciphertext (crypto vector_keystore))) = Inr [3, 118, 102, 119] \<and>
   KeySplitter_split vector_material
     = ([2, 116, 101, 115, 116, 112, 97, 115, 115, 119, 111, 114, 100, 2, 116, 101],
        [115, 116, 112, 97, 115, 115, 119, 111, 114, 100, 2, 116, 101, 115, 116, 112]) \<and>
   Bytes_from (Hex (''0x'' @ mac (crypto vector_keystore)))
     = Inr (IntegrityGuard_compute toy_primitives
              [115, 116, 112, 97, 115, 115, 119, 111, 114, 100, 2, 116, 101, 115, 116, 112]
              [3, 118, 102, 119]) \<and>
   length (IntegrityGuard_compute toy_primitives
              [115, 116, 112, 97, 115, 115, 119, 111, 114, 100, 2, 116, 101, 115, 116, 112]
              [3, 118, 102, 119]) = 32"
proof -
  let ?cipherKey = "[2, 116, 101, 115, 116, 112, 97, 115, 115, 119, 111, 114, 100, 2, 116, 101]
                     :: bytes"
  let ?macKey = "[115, 116, 112, 97, 115, 115, 119, 111, 114, 100, 2, 116, 101, 115, 116, 112]
                  :: bytes"
  have k: "Bytes_from (Hex (''0x'' @ key.key vector_key ())) = Inr vector_material"
    by code_simp
  have l: "length vector_material = 32"
    by code_simp
  have s: "KeySplitter_split vector_material = (?cipherKey, ?macKey)"
    by code_simp
  have e: "fst (encrypt toy_primitives vector_privateKey vector_key
                  \<lparr>encrypt_options.id' = Some ''id-1''\<rparr> zero_entropy) = Inr vector_keystore"
    by code_simp
  have v: "Bytes_from vector_privateKey = Inr [1, 2, 3, 4]"
    by code_simp
  have c: "Bytes_from (Hex (''0x'' @ ciphertext (crypto vector_keystore))) = Inr [3, 118, 102, 119]"
    by code_simp
  have d: "\<forall>m. length (keccak256 toy_primitives m) = 32"
    by (simp add: toy_primitives_def toy_keccak256_def min_def)
  have x: "ctr_encrypt toy_primitives ?cipherKey (key.iv vector_key) [1, 2, 3, 4]
             = Some [3, 118, 102, 119]"
    by code_simp
  note t = key_split_and_mac_order [OF k l s, of toy_primitives]
  from t v x
  obtain ks where r: "fst (encrypt toy_primitives vector_privateKey vector_key
                             \<lparr>encrypt_options.id' = Some ''id-1''\<rparr> zero_entropy) = Inr ks"
    and rc: "Bytes_from (Hex (''0x'' @ ciphertext (crypto ks))) = Inr [3, 118, 102, 119]"
    by blast
  from r e have "ks = vector_keystore" by simp
  with r rc have produced:
    "fst (encrypt toy_primitives vector_privateKey vector_key
            \<lparr>encrypt_options.id' = Some ''id-1''\<rparr> zero_entropy) = Inr vector_keystore"
    "Bytes_from (Hex (''0x'' @ ciphertext (crypto vector_keystore))) = Inr [3, 118, 102, 119]"
    by simp_all
  from t have "\<exists>ct. ctr_encrypt toy_primitives ?cipherKey (key.iv vector_key) [1, 2, 3, 4] = Some ct \<and>
                  Bytes_from (Hex (''0x'' @ ciphertext (crypto vector_keystore))) = Inr ct \<and>
                  Bytes_from (Hex (''0x'' @ mac (crypto vector_keystore)))
                    = Inr (IntegrityGuard_compute toy_primitives ?macKey ct)"
    using e v by blast
  with c have "Bytes_from (Hex (''0x'' @ mac (crypto vector_keystore)))
                 = Inr (IntegrityGuard_compute toy_primitives ?macKey [3, 118, 102, 119])"
    by auto
  moreover from t d
  have "length (IntegrityGuard_compute toy_primitives ?macKey [3, 118, 102, 119]) = 32"
    by blast
  ultimately show ?thesis using s produced x by blast
qed

lemma xor_eq_self:
  assumes "(x :: byte) XOR y = x"
  shows "y = 0"
proof -
  from assms have "x XOR (x XOR y) = x XOR x" by simp
  then show ?thesis by (simp add: xor.assoc [symmetric])
qed

lemma flip_bit_differs:
  assumes "i < 8 * length bs"
  shows "flip_bit i bs \<noteq> bs"
proof
  assume eq: "flip_bit i bs = bs"
  from assms have j: "i div 8 < length bs" by simp
  have "flip_bit i bs ! (i div 8) = (bs ! (i div 8)) XOR push_bit (i mod 8) 1"
    using j by (simp add: flip_bit_def)
  with eq have "(bs ! (i div 8)) XOR push_bit (i mod 8) 1 = bs ! (i div 8)" by simp
  then have "push_bit (i mod 8) (1 :: byte) = 0" by (rule xor_eq_self)
  then show False by simp
qed

text \<open>
  Claim C8. Take a record \<open>ks\<close> that \<open>encrypt\<close> returned under the key \<open>k\<close>. Flipping any
  single bit of its mac makes \<open>decrypt\<close> under \<open>k\<close> fail with \<open>CorruptKeystore\<close>. Flipping
  any single bit of its ciphertext does the same whenever the digest of \<open>macKey\<close> followed
  by the changed ciphertext differs from that of the original, that is, unless Keccak-256
  collides on the two: the digest is a parameter here, and nothing else is assumed of it.
  In both cases \<open>decrypt\<close> returns an error, so no plaintext, altered or not.
\<close>

theorem tamper_detection:
  assumes "fst (encrypt P privateKey k eo g) = Inr ks"
    and "Bytes_from (Hex (''0x'' @ key.key k ())) = Inr material"
    and "Bytes_from (Hex (''0x'' @ ciphertext (crypto ks))) = Inr ct"
    and "Bytes_from (Hex (''0x'' @ mac (crypto ks))) = Inr digest"
  shows "(\<forall>i < 8 * length digest.
            decrypt P (ks\<lparr>crypto := (crypto ks)\<lparr>mac := drop 2 (Bytes_toHex (flip_bit i digest))\<rparr>\<rparr>)
              k options = Inl CorruptKeystore) \<and>
         (\<forall>i < 8 * length ct.
            keccak256 P (Bytes_concat (Bytes_slice material 16 32) (flip_bit i ct))
              \<noteq> keccak256 P (Bytes_concat (Bytes_slice material 16 32) ct) \<longrightarrow>
            decrypt P
              (ks\<lparr>crypto := (crypto ks)\<lparr>ciphertext := drop 2 (Bytes_toHex (flip_bit i ct))\<rparr>\<rparr>)
              k options = Inl CorruptKeystore)"
proof -
  from encrypt_Inr [OF assms(1)] assms(2)
  obtain ct' where f: "ciphertext (crypto ks) = drop 2 (Bytes_toHex ct')"
    and m: "mac (crypto ks)
              = drop 2 (Bytes_toHex (keccak256 P (Bytes_slice material 16 32 @ ct')))"
    by auto
  have "Bytes_from (Hex (''0x'' @ ciphertext (crypto ks))) = Inr ct'"
    unfolding f by (rule from_toHex)
  with assms(3) have ct: "ct' = ct" by simp
  have "Bytes_from (Hex (''0x'' @ mac (crypto ks)))
          = Inr (keccak256 P (Bytes_slice material 16 32 @ ct'))"
    unfolding m by (rule from_toHex)
  with assms(4) ct have dg: "digest = keccak256 P (Bytes_slice material 16 32 @ ct)" by simp
  have mac_case: "decrypt P
                    (ks\<lparr>crypto := (crypto ks)\<lparr>mac := drop 2 (Bytes_toHex (flip_bit i digest))\<rparr>\<rparr>)
                    k options = Inl CorruptKeystore"
    if "i < 8 * length digest" for i
  proof -
    let ?ks = "ks\<lparr>crypto := (crypto ks)\<lparr>mac := drop 2 (Bytes_toHex (flip_bit i digest))\<rparr>\<rparr>"
    have c: "Bytes_from (Hex (''0x'' @ ciphertext (crypto ?ks))) = Inr ct"
      using assms(3) by simp
    have "mac (crypto ?ks) = drop 2 (Bytes_toHex (flip_bit i digest))" by simp
    then have s: "Bytes_from (Hex (''0x'' @ mac (crypto ?ks))) = Inr (flip_bit i digest)"
      by (simp only: from_toHex)
    from flip_bit_differs [OF that] dg
    have "keccak256 P (Bytes_slice material 16 32 @ ct) \<noteq> flip_bit i digest" by simp
    then show ?thesis
      by (simp add: decrypt_decoded [OF assms(2) c s])
  qed
  have ct_case: "decrypt P
                   (ks\<lparr>crypto := (crypto ks)\<lparr>ciphertext := drop 2 (Bytes_toHex (flip_bit i ct))\<rparr>\<rparr>)
                   k options = Inl CorruptKeystore"
    if "keccak256 P (Bytes_concat (Bytes_slice material 16 32) (flip_bit i ct))
          \<noteq> keccak256 P (Bytes_concat (Bytes_slice material 16 32) ct)" for i
  proof -
    let ?ks = "ks\<lparr>crypto := (crypto ks)\<lparr>ciphertext := drop 2 (Bytes_toHex (flip_bit i ct))\<rparr>\<rparr>"
    have "ciphertext (crypto ?ks) = drop 2 (Bytes_toHex (flip_bit i ct))" by simp
    then have c: "Bytes_from (Hex (''0x'' @ ciphertext (crypto ?ks))) = Inr (flip_bit i ct)"
      by (simp only: from_toHex)
    have s: "Bytes_from (Hex (''0x'' @ mac (crypto ?ks))) = Inr digest"
      using assms(4) by simp
    from that dg have "keccak256 P (Bytes_slice material 16 32 @ flip_bit i ct) \<noteq> digest"
      by (simp add: Bytes_concat_def)
    then show ?thesis
      by (simp add: decrypt_decoded [OF assms(2) c s])
  qed
  from mac_case ct_case show ?thesis by blast
qed


text \<open>
  Tampering at the vector: bit 0 of the mac, bit 9 of the ciphertext.
\<close>

theorem tamper_detection_witness:
  "decrypt toy_primitives
     (vector_keystore\<lparr>crypto := (crypto vector_keystore)
        \<lparr>mac := drop 2 (Bytes_toHex (flip_bit 0
                  [115, 116, 112, 97, 115, 115, 119, 111, 114, 100, 2, 116, 101, 115, 116, 112,
                   3, 118, 102, 119, 0, 0, 0, 0, 0, 0, 0, 0, 0, 0, 0, 0]))\<rparr>\<rparr>)
     vector_key \<lparr>as = None\<rparr> = Inl CorruptKeystore \<and>
   decrypt toy_primitives
     (vector_keystore\<lparr>crypto := (crypto vector_keystore)
        \<lparr>ciphertext := drop 2 (Bytes_toHex (flip_bit 9 [3, 118, 102, 119]))\<rparr>\<rparr>)
     vector_key \<lparr>as = None\<rparr> = Inl CorruptKeystore"
proof -
  let ?digest = "[115, 116, 112, 97, 115, 115, 119, 111, 114, 100, 2, 116, 101, 115, 116, 112,
                  3, 118, 102, 119, 0, 0, 0, 0, 0, 0, 0, 0, 0, 0, 0, 0] :: bytes"
  have e: "fst (encrypt toy_primitives vector_privateKey vector_key
                  \<lparr>encrypt_options.id' = Some ''id-1''\<rparr> zero_entropy) = Inr vector_keystore"
    by code_simp
  have k: "Bytes_from (Hex (''0x'' @ key.key vector_key ())) = Inr vector_material"
    by code_simp
  have c: "Bytes_from (Hex (''0x'' @ ciphertext (crypto vector_keystore))) = Inr [3, 118, 102, 119]"
    by code_simp
  have m: "Bytes_from (Hex (''0x'' @ mac (crypto vector_keystore))) = Inr ?digest"
    by code_simp
  have i0: "0 < 8 * length ?digest"
    by simp
  have i9: "9 < 8 * length [3, 118, 102, 119 :: byte]"
    by simp
  have ne: "keccak256 toy_primitives
              (Bytes_concat (Bytes_slice vector_material 16 32) (flip_bit 9 [3, 118, 102, 119]))
            \<noteq> keccak256 toy_primitives
                (Bytes_concat (Bytes_slice vector_material 16 32) [3, 118, 102, 119])"
    by code_simp
  note t = tamper_detection [OF e k c m, of "\<lparr>as = None\<rparr>"]
  from t [THEN conjunct1, rule_format, OF i0] t [THEN conjunct2, rule_format, OF i9 ne]
  show ?thesis by (rule conjI)
qed

text \<open>
  Claim C10. \<open>decrypt\<close> never reads \<open>crypto.cipherparams\<close>: replacing it by any other value
  leaves the result as it was. For a key with a material of 32 bytes and a record whose
  mac verifies, the result is the cipher's decryption under the iv of the key.
\<close>

theorem decrypt_ignores_stored_iv:
  "(\<forall>cp. decrypt P (ks\<lparr>crypto := (crypto ks)\<lparr>cipherparams := cp\<rparr>\<rparr>) k options
           = decrypt P ks k options) \<and>
   (Bytes_from (Hex (''0x'' @ key.key k ())) = Inr material \<longrightarrow>
    length material = 32 \<longrightarrow>
    Bytes_from (Hex (''0x'' @ ciphertext (crypto ks))) = Inr ct \<longrightarrow>
    Bytes_from (Hex (''0x'' @ mac (crypto ks)))
      = Inr (keccak256 P (Bytes_concat (Bytes_slice material 16 32) ct)) \<longrightarrow>
    decrypt P ks k \<lparr>as = Some ''Bytes''\<rparr>
      = (case ctr_decrypt P (Bytes_slice material 0 16) (key.iv k) ct of
           None \<Rightarrow> Inl CipherError
         | Some data \<Rightarrow> Inr (Bytes data)))"
proof (intro conjI allI impI)
  fix cp
  show "decrypt P (ks\<lparr>crypto := (crypto ks)\<lparr>cipherparams := cp\<rparr>\<rparr>) k options
          = decrypt P ks k options"
    by (simp add: decrypt_def Let_def cong: sum.case_cong)
next
  assume k: "Bytes_from (Hex (''0x'' @ key.key k ())) = Inr material"
    and "length material = 32"
    and c: "Bytes_from (Hex (''0x'' @ ciphertext (crypto ks))) = Inr ct"
    and m: "Bytes_from (Hex (''0x'' @ mac (crypto ks)))
              = Inr (keccak256 P (Bytes_concat (Bytes_slice material 16 32) ct))"
  show "decrypt P ks k \<lparr>as = Some ''Bytes''\<rparr>
      = (case ctr_decrypt P (Bytes_slice material 0 16) (key.iv k) ct of
           None \<Rightarrow> Inl CipherError
         | Some data \<Rightarrow> Inr (Bytes data))"
    by (simp add: decrypt_decoded [OF k c m] Bytes_concat_def split: option.splits)
qed

text \<open>
  A record whose stored iv is not the key's: it is decrypted under the key's iv, to the
  same bytes as the record that stores the key's iv.
\<close>

theorem decrypt_ignores_stored_iv_witness:
  "cipherparams.iv (cipherparams (crypto foreign_iv_keystore))
     \<noteq> drop 2 (Bytes_toHex (key.iv vector_key)) \<and>
   decrypt toy_primitives foreign_iv_keystore vector_key \<lparr>as = Some ''Bytes''\<rparr>
     = Inr (Bytes [1, 2, 3, 4]) \<and>
   decrypt toy_primitives foreign_iv_keystore vector_key \<lparr>as = Some ''Bytes''\<rparr>
     = decrypt toy_primitives vector_keystore vector_key \<lparr>as = Some ''Bytes''\<rparr>"
proof -
  have d: "cipherparams.iv (cipherparams (crypto foreign_iv_keystore))
             \<noteq> drop 2 (Bytes_toHex (key.iv vector_key))"
    by code_simp
  have k: "Bytes_from (Hex (''0x'' @ key.key vector_key ())) = Inr vector_material"
    by code_simp
  have l: "length vector_material = 32"
    by code_simp
  have c: "Bytes_from (Hex (''0x'' @ ciphertext (crypto foreign_iv_keystore)))
             = Inr [3, 118, 102, 119]"
    by code_simp
  have m: "Bytes_from (Hex (''0x'' @ mac (crypto foreign_iv_keystore)))
             = Inr (keccak256 toy_primitives
                      (Bytes_concat (Bytes_slice vector_material 16 32) [3, 118, 102, 119]))"
    by code_simp
  have x: "ctr_decrypt toy_primitives (Bytes_slice vector_material 0 16) (key.iv vector_key)
             [3, 118, 102, 119] = Some [1, 2, 3, 4]"
    by code_simp
  note t = decrypt_ignores_stored_iv [of toy_primitives _ vector_key]
  from t [THEN conjunct2, rule_format, OF k l c m] x
  have r: "decrypt toy_primitives foreign_iv_keystore vector_key \<lparr>as = Some ''Bytes''\<rparr>
             = Inr (Bytes [1, 2, 3, 4])"
    by simp
  from t [of vector_keystore "\<lparr>as = Some ''Bytes''\<rparr>", THEN conjunct1, rule_format,
          of "\<lparr>cipherparams.iv = ''ffffffffffffffffffffffffffffffff''\<rparr>"]
  have "decrypt toy_primitives foreign_iv_keystore vector_key \<lparr>as = Some ''Bytes''\<rparr>
          = decrypt toy_primitives vector_keystore vector_key \<lparr>as = Some ''Bytes''\<rparr>"
    by (simp add: foreign_iv_keystore_def)
  with d r show ?thesis by simp
qed

section \<open>Key derivation\<close>

lemma defineKey_Inr:
  assumes "defineKey kv g = (Inr k, g')"
  shows "from_or_random (key_value.iv kv) 16 g = (Inr (key.iv k), g') \<and>
         key.key k = key_value.key kv \<and> key.kdfparams k = key_value.kdfparams kv \<and>
         key.kdf k = key_value.kdf kv"
  using assms
  by (auto simp: defineKey_def split: prod.splits sum.splits)

lemma defineKey_from:
  assumes "from_or_random (key_value.iv kv) 16 g = (Inr v, g')"
  shows "defineKey kv g =
           (Inr \<lparr> key.iv = v, key = key_value.key kv, kdfparams = key_value.kdfparams kv,
                   kdf = key_value.kdf kv \<rparr>, g')"
  using assms by (simp add: defineKey_def)

lemma pbkdf2_Inr:
  assumes "pbkdf2 P po g = (Inr k, g')"
  shows "\<exists>s g1 dk.
           from_or_random (pbkdf2_options.salt po) 32 g = (Inr s, g1) \<and>
           pbkdf2_noble P (pbkdf2_options.password po) s
             (case iterations po of None \<Rightarrow> 262144 | Some i \<Rightarrow> i) 32 = Some dk \<and>
           from_or_random (pbkdf2_options.iv po) 16 g1 = (Inr (key.iv k), g') \<and>
           key.key k () = drop 2 (Bytes_toHex dk) \<and>
           key.kdfparams k =
             Pbkdf2 \<lparr> c = (case iterations po of None \<Rightarrow> 262144 | Some i \<Rightarrow> i), dklen = 32,
                      prf = ''hmac-sha256'', salt = drop 2 (Bytes_toHex s) \<rparr> \<and>
           key.kdf k = ''pbkdf2''"
  using assms
  by (auto simp: pbkdf2_def Let_def dest!: defineKey_Inr split: prod.splits sum.splits option.splits)

lemma scrypt_Inr:
  assumes "scrypt P so g = (Inr k, g')"
  shows "\<exists>s g1 dk.
           from_or_random (scrypt_options.salt so) 32 g = (Inr s, g1) \<and>
           scrypt_noble P (scrypt_options.password so) s
             (case scrypt_options.n so of None \<Rightarrow> 262144 | Some i \<Rightarrow> i) 32 1 8 = Some dk \<and>
           from_or_random (scrypt_options.iv so) 16 g1 = (Inr (key.iv k), g') \<and>
           key.key k () = drop 2 (Bytes_toHex dk) \<and>
           key.kdfparams k =
             Scrypt \<lparr> dklen = 32, n = (case scrypt_options.n so of None \<Rightarrow> 262144 | Some i \<Rightarrow> i),
                      p = 8, r = 1, salt = drop 2 (Bytes_toHex s) \<rparr> \<and>
           key.kdf k = ''scrypt''"
  using assms
  by (auto simp: scrypt_def Let_def dest!: defineKey_Inr split: prod.splits sum.splits option.splits)

lemma pbkdf2_returns:
  assumes "from_or_random (pbkdf2_options.salt po) 32 g = (Inr s, g1)"
    and "pbkdf2_noble P (pbkdf2_options.password po) s
           (case iterations po of None \<Rightarrow> 262144 | Some i \<Rightarrow> i) 32 = Some dk"
    and "from_or_random (pbkdf2_options.iv po) 16 g1 = (Inr v, g2)"
  shows "\<exists>k. pbkdf2 P po g = (Inr k, g2) \<and> key.iv k = v"
  using assms by (simp add: pbkdf2_def Let_def defineKey_def)

lemma scrypt_returns:
  assumes "from_or_random (scrypt_options.salt so) 32 g = (Inr s, g1)"
    and "scrypt_noble P (scrypt_options.password so) s
           (case scrypt_options.n so of None \<Rightarrow> 262144 | Some i \<Rightarrow> i) 32 1 8 = Some dk"
    and "from_or_random (scrypt_options.iv so) 16 g1 = (Inr v, g2)"
  shows "\<exists>k. scrypt P so g = (Inr k, g2) \<and> key.iv k = v"
  using assms by (simp add: scrypt_def Let_def defineKey_def)


text \<open>
  Claim C6. Let the PBKDF2 and scrypt primitives return \<open>dkLen\<close> bytes when asked for 32.
  Every key that \<open>pbkdf2\<close> returns holds, as its material, the 32 bytes that the primitive
  derived from the password, the salt \<open>s\<close> in use (the caller's, or 32 random bytes) and the
  iterations (262144 unless given), and its kdfparams are
  \<open>{c: iterations, dklen: 32, prf: 'hmac-sha256', salt: hex of s}\<close> under the tag \<open>pbkdf2\<close>.
  Every key that \<open>scrypt\<close> returns holds the 32 bytes that the primitive derived with
  \<open>N\<close> (262144 unless given), \<open>r = 1\<close> and \<open>p = 8\<close>, and its kdfparams are
  \<open>{dklen: 32, n: N, p: 8, r: 1, salt: hex of s}\<close>; the options have no field for \<open>r\<close> or
  \<open>p\<close>. Both derivations return a key whenever the salt and the iv convert and the
  primitive returns.
\<close>

theorem derived_key_shape:
  assumes "\<forall>pw s cost dk. pbkdf2_noble P pw s cost 32 = Some dk \<longrightarrow> length dk = 32"
    and "\<forall>pw s cost r' p' dk. scrypt_noble P pw s cost 32 r' p' = Some dk \<longrightarrow> length dk = 32"
  shows "(\<forall>k g'. pbkdf2 P po g = (Inr k, g') \<longrightarrow>
            (\<exists>s dk.
               fst (from_or_random (pbkdf2_options.salt po) 32 g) = Inr s \<and>
               pbkdf2_noble P (pbkdf2_options.password po) s
                 (case iterations po of None \<Rightarrow> 262144 | Some i \<Rightarrow> i) 32 = Some dk \<and>
               Bytes_from (Hex (''0x'' @ key.key k ())) = Inr dk \<and> length dk = 32 \<and>
               key.kdfparams k =
                 Pbkdf2 \<lparr> c = (case iterations po of None \<Rightarrow> 262144 | Some i \<Rightarrow> i),
                          dklen = 32, prf = ''hmac-sha256'', salt = drop 2 (Bytes_toHex s) \<rparr> \<and>
               key.kdf k = ''pbkdf2'')) \<and>
         (\<forall>k g'. scrypt P so g = (Inr k, g') \<longrightarrow>
            (\<exists>s dk.
               fst (from_or_random (scrypt_options.salt so) 32 g) = Inr s \<and>
               scrypt_noble P (scrypt_options.password so) s
                 (case scrypt_options.n so of None \<Rightarrow> 262144 | Some i \<Rightarrow> i) 32 1 8 = Some dk \<and>
               Bytes_from (Hex (''0x'' @ key.key k ())) = Inr dk \<and> length dk = 32 \<and>
               key.kdfparams k =
                 Scrypt \<lparr> dklen = 32,
                          n = (case scrypt_options.n so of None \<Rightarrow> 262144 | Some i \<Rightarrow> i),
                          p = 8, r = 1, salt = drop 2 (Bytes_toHex s) \<rparr> \<and>
               key.kdf k = ''scrypt'')) \<and>
         (\<forall>s g1 dk v g2.
            from_or_random (pbkdf2_options.salt po) 32 g = (Inr s, g1) \<longrightarrow>
            pbkdf2_noble P (pbkdf2_options.password po) s
              (case iterations po of None \<Rightarrow> 262144 | Some i \<Rightarrow> i) 32 = Some dk \<longrightarrow>
            from_or_random (pbkdf2_options.iv po) 16 g1 = (Inr v, g2) \<longrightarrow>
            (\<exists>k. pbkdf2 P po g = (Inr k, g2))) \<and>
         (\<forall>s g1 dk v g2.
            from_or_random (scrypt_options.salt so) 32 g = (Inr s, g1) \<longrightarrow>
            scrypt_noble P (scrypt_options.password so) s
              (case scrypt_options.n so of None \<Rightarrow> 262144 | Some i \<Rightarrow> i) 32 1 8 = Some dk \<longrightarrow>
            from_or_random (scrypt_options.iv so) 16 g1 = (Inr v, g2) \<longrightarrow>
            (\<exists>k. scrypt P so g = (Inr k, g2)))"
proof (intro conjI allI impI)
  fix k g'
  assume "pbkdf2 P po g = (Inr k, g')"
  from pbkdf2_Inr [OF this] obtain s g1 dk where
    *: "from_or_random (pbkdf2_options.salt po) 32 g = (Inr s, g1)"
       "pbkdf2_noble P (pbkdf2_options.password po) s
          (case iterations po of None \<Rightarrow> 262144 | Some i \<Rightarrow> i) 32 = Some dk"
       "key.key k () = drop 2 (Bytes_toHex dk)"
       "key.kdfparams k =
          Pbkdf2 \<lparr> c = (case iterations po of None \<Rightarrow> 262144 | Some i \<Rightarrow> i), dklen = 32,
                   prf = ''hmac-sha256'', salt = drop 2 (Bytes_toHex s) \<rparr>"
       "key.kdf k = ''pbkdf2''"
    by blast
  from *(2) assms(1) have l: "length dk = 32" by blast
  have d: "Bytes_from (Hex (''0x'' @ key.key k ())) = Inr dk"
    unfolding *(3) by (rule from_toHex)
  from *(1) have "fst (from_or_random (pbkdf2_options.salt po) 32 g) = Inr s" by simp
  with *(2,4,5) l d
  show "\<exists>s dk.
               fst (from_or_random (pbkdf2_options.salt po) 32 g) = Inr s \<and>
               pbkdf2_noble P (pbkdf2_options.password po) s
                 (case iterations po of None \<Rightarrow> 262144 | Some i \<Rightarrow> i) 32 = Some dk \<and>
               Bytes_from (Hex (''0x'' @ key.key k ())) = Inr dk \<and> length dk = 32 \<and>
               key.kdfparams k =
                 Pbkdf2 \<lparr> c = (case iterations po of None \<Rightarrow> 262144 | Some i \<Rightarrow> i),
                          dklen = 32, prf = ''hmac-sha256'', salt = drop 2 (Bytes_toHex s) \<rparr> \<and>
               key.kdf k = ''pbkdf2''"
    by blast
next
  fix k g'
  assume "scrypt P so g = (Inr k, g')"
  from scrypt_Inr [OF this] obtain s g1 dk where
    *: "from_or_random (scrypt_options.salt so) 32 g = (Inr s, g1)"
       "scrypt_noble P (scrypt_options.password so) s
          (case scrypt_options.n so of None \<Rightarrow> 262144 | Some i \<Rightarrow> i) 32 1 8 = Some dk"
       "key.key k () = drop 2 (Bytes_toHex dk)"
       "key.kdfparams k =
          Scrypt \<lparr> dklen = 32, n = (case scrypt_options.n so of None \<Rightarrow> 262144 | Some i \<Rightarrow> i),
                   p = 8, r = 1, salt = drop 2 (Bytes_toHex s) \<rparr>"
       "key.kdf k = ''scrypt''"
    by blast
  from *(2) assms(2) have l: "length dk = 32" by blast
  have d: "Bytes_from (Hex (''0x'' @ key.key k ())) = Inr dk"
    unfolding *(3) by (rule from_toHex)
  from *(1) have "fst (from_or_random (scrypt_options.salt so) 32 g) = Inr s" by simp
  with *(2,4,5) l d
  show "\<exists>s dk.
               fst (from_or_random (scrypt_options.salt so) 32 g) = Inr s \<and>
               scrypt_noble P (scrypt_options.password so) s
                 (case scrypt_options.n so of None \<Rightarrow> 262144 | Some i \<Rightarrow> i) 32 1 8 = Some dk \<and>
               Bytes_from (Hex (''0x'' @ key.key k ())) = Inr dk \<and> length dk = 32 \<and>
               key.kdfparams k =
                 Scrypt \<lparr> dklen = 32,
                          n = (case scrypt_options.n so of None \<Rightarrow> 262144 | Some i \<Rightarrow> i),
                          p = 8, r = 1, salt = drop 2 (Bytes_toHex s) \<rparr> \<and>
               key.kdf k = ''scrypt''"
    by blast
next
  fix s g1 dk v g2
  assume "from_or_random (pbkdf2_options.salt po) 32 g = (Inr s, g1)"
    and "pbkdf2_noble P (pbkdf2_options.password po) s
              (case iterations po of None \<Rightarrow> 262144 | Some i \<Rightarrow> i) 32 = Some dk"
    and "from_or_random (pbkdf2_options.iv po) 16 g1 = (Inr v, g2)"
  from pbkdf2_returns [OF this] show "\<exists>k. pbkdf2 P po g = (Inr k, g2)" by blast
next
  fix s g1 dk v g2
  assume "from_or_random (scrypt_options.salt so) 32 g = (Inr s, g1)"
    and "scrypt_noble P (scrypt_options.password so) s
              (case scrypt_options.n so of None \<Rightarrow> 262144 | Some i \<Rightarrow> i) 32 1 8 = Some dk"
    and "from_or_random (scrypt_options.iv so) 16 g1 = (Inr v, g2)"
  from scrypt_returns [OF this] show "\<exists>k. scrypt P so g = (Inr k, g2)" by blast
qed


text \<open>
  The derivations at the vector, scrypt with its default cost.
\<close>

theorem derived_key_shape_witness:
  "(\<exists>k g'. pbkdf2 toy_primitives vector_options zero_entropy = (Inr k, g') \<and>
      Bytes_from (Hex (''0x'' @ key.key k ())) = Inr vector_material \<and>
      length vector_material = 32 \<and>
      key.kdfparams k = Pbkdf2 \<lparr> c = 2, dklen = 32, prf = ''hmac-sha256'',
                                  salt = replicate 64 (CHR ''0'') \<rparr> \<and>
      key.kdf k = ''pbkdf2'') \<and>
   (\<exists>k g' dk. scrypt toy_primitives (vector_scrypt_options\<lparr>scrypt_options.n := None\<rparr>)
                 zero_entropy = (Inr k, g') \<and>
      Bytes_from (Hex (''0x'' @ key.key k ())) = Inr dk \<and> length dk = 32 \<and>
      key.kdfparams k = Scrypt \<lparr> dklen = 32, n = 262144, p = 8, r = 1,
                                  salt = replicate 64 (CHR ''0'') \<rparr> \<and>
      key.kdf k = ''scrypt'')"
proof -
  let ?so = "vector_scrypt_options\<lparr>scrypt_options.n := None\<rparr>"
  have c1: "\<forall>pw s cost dk. pbkdf2_noble toy_primitives pw s cost 32 = Some dk \<longrightarrow> length dk = 32"
    by (auto simp: toy_primitives_def toy_pbkdf2_def split: if_splits)
  have c2: "\<forall>pw s cost r' p' dk.
              scrypt_noble toy_primitives pw s cost 32 r' p' = Some dk \<longrightarrow> length dk = 32"
    by (auto simp: toy_primitives_def toy_scrypt_def split: if_splits)
  note t = derived_key_shape [OF c1 c2, of vector_options zero_entropy ?so]
  have hx: "drop 2 (Bytes_toHex (replicate 32 0)) = replicate 64 (CHR ''0'')"
    by code_simp
  have ps: "from_or_random (pbkdf2_options.salt vector_options) 32 zero_entropy
              = (Inr (replicate 32 0), zero_entropy)"
    by (simp add: vector_options_def from_or_random_def)
  have pd: "pbkdf2_noble toy_primitives (pbkdf2_options.password vector_options) (replicate 32 0)
              (case iterations vector_options of None \<Rightarrow> 262144 | Some i \<Rightarrow> i) 32
              = Some vector_material"
    by code_simp
  have pv: "from_or_random (pbkdf2_options.iv vector_options) 16 zero_entropy
              = (Inr (replicate 16 0), zero_entropy)"
    by (simp add: vector_options_def from_or_random_def)
  from t [THEN conjunct2, THEN conjunct2, THEN conjunct1, rule_format, OF ps pd pv]
  obtain k1 where r1: "pbkdf2 toy_primitives vector_options zero_entropy = (Inr k1, zero_entropy)"
    by blast
  from t [THEN conjunct1, rule_format, OF r1] ps pd
  have k1: "Bytes_from (Hex (''0x'' @ key.key k1 ())) = Inr vector_material"
    "length vector_material = 32"
    "key.kdfparams k1 = Pbkdf2 \<lparr> c = 2, dklen = 32, prf = ''hmac-sha256'',
                                  salt = replicate 64 (CHR ''0'') \<rparr>"
    "key.kdf k1 = ''pbkdf2''"
    by (auto simp: hx vector_options_def)
  have ss: "from_or_random (scrypt_options.salt ?so) 32 zero_entropy
              = (Inr (replicate 32 0), zero_entropy)"
    by (simp add: vector_scrypt_options_def from_or_random_def)
  obtain dk where sd: "scrypt_noble toy_primitives (scrypt_options.password ?so) (replicate 32 0)
              (case scrypt_options.n ?so of None \<Rightarrow> 262144 | Some i \<Rightarrow> i) 32 1 8 = Some dk"
    by (simp add: toy_primitives_def toy_scrypt_def)
  have sv: "from_or_random (scrypt_options.iv ?so) 16 zero_entropy
              = (Inr (replicate 16 0), zero_entropy)"
    by (simp add: vector_scrypt_options_def from_or_random_def)
  from t [THEN conjunct2, THEN conjunct2, THEN conjunct2, rule_format, OF ss sd sv]
  obtain k2 where r2: "scrypt toy_primitives ?so zero_entropy = (Inr k2, zero_entropy)"
    by blast
  from t [THEN conjunct2, THEN conjunct1, rule_format, OF r2] ss
  have k2: "\<exists>dk. Bytes_from (Hex (''0x'' @ key.key k2 ())) = Inr dk \<and> length dk = 32"
    "key.kdfparams k2 = Scrypt \<lparr> dklen = 32, n = 262144, p = 8, r = 1,
                                  salt = replicate 64 (CHR ''0'') \<rparr>"
    "key.kdf k2 = ''scrypt''"
    by (auto simp: hx)
  from r1 k1 r2 k2 show ?thesis
    by blast
qed

text \<open>
  Claim C7. If the non-blocking primitive computes what the blocking one computes, for
  the password at hand, then \<open>pbkdf2Async\<close> returns what \<open>pbkdf2\<close> returns on the same
  options and the same state of the random generator: the same key (iv, material, kdf tag,
  kdfparams) or the same error. The same holds of \<open>scryptAsync\<close> and \<open>scrypt\<close>. With salt and
  iv supplied the generator is not read, so the result is a function of the inputs alone.
\<close>

theorem async_variants_agree:
  "((\<forall>s cost. pbkdf2Async_noble P (pbkdf2_options.password po) s cost 32
                = pbkdf2_noble P (pbkdf2_options.password po) s cost 32) \<longrightarrow>
    pbkdf2Async P po g = pbkdf2 P po g) \<and>
   ((\<forall>s cost. scryptAsync_noble P (scrypt_options.password so) s cost 32 1 8
                = scrypt_noble P (scrypt_options.password so) s cost 32 1 8) \<longrightarrow>
    scryptAsync P so g = scrypt P so g)"
  by (simp add: pbkdf2Async_def pbkdf2_def scryptAsync_def scrypt_def Let_def
        split: prod.splits sum.splits)

text \<open>
  The two pairs of variants at the vector.
\<close>

theorem async_variants_agree_witness:
  "pbkdf2Async toy_primitives vector_options zero_entropy
     = pbkdf2 toy_primitives vector_options zero_entropy \<and>
   scryptAsync toy_primitives vector_scrypt_options zero_entropy
     = scrypt toy_primitives vector_scrypt_options zero_entropy"
proof -
  have a: "\<forall>s cost. pbkdf2Async_noble toy_primitives (pbkdf2_options.password vector_options) s cost 32
                = pbkdf2_noble toy_primitives (pbkdf2_options.password vector_options) s cost 32"
    by (simp add: toy_primitives_def)
  have b: "\<forall>s cost. scryptAsync_noble toy_primitives (scrypt_options.password vector_scrypt_options)
                  s cost 32 1 8
                = scrypt_noble toy_primitives (scrypt_options.password vector_scrypt_options)
                  s cost 32 1 8"
    by (simp add: toy_primitives_def)
  from async_variants_agree [THEN conjunct1, THEN mp, OF a]
    async_variants_agree [THEN conjunct2, THEN mp, OF b]
  show ?thesis by (rule conjI)
qed

section \<open>The iv is not validated\<close>

lemma from_or_random_Bytes: "from_or_random (Some (Bytes b)) len g = (Inr b, g)"
  by (simp add: from_or_random_def)

lemma from_or_random_None:
  "from_or_random None len g = (Inr (fst (Bytes_random len g)), snd (Bytes_random len g))"
  by (simp add: from_or_random_def split: prod.splits)

lemma length_Bytes_random: "length (fst (Bytes_random len g)) = len"
  by (simp add: Bytes_random_def)

text \<open>
  Claim C9 says that a derivation given an iv that is not 16 bytes long fails with an
  input-length error. It does not: \<open>defineKey\<close>, and \<open>pbkdf2\<close> through it, return a key that
  carries an iv of three bytes.
\<close>

theorem short_iv_accepted_counterexample:
  "map_sum id key.iv (fst (defineKey short_iv_value zero_entropy)) = Inr [1, 2, 3] \<and>
   map_sum id key.iv
     (fst (pbkdf2 toy_primitives (vector_options\<lparr>pbkdf2_options.iv := Some (Bytes [1, 2, 3])\<rparr>)
             zero_entropy)) = Inr [1, 2, 3]"
  by code_simp

text \<open>
  Claim C9, amended. Neither \<open>defineKey\<close> nor any of the four derivations checks the
  length of an iv. \<open>defineKey\<close> stores an iv supplied as bytes as it is, whatever its
  length, and cannot fail on it; an iv supplied as a non-empty hex string is stored as the
  bytes it decodes to, however many, and fails only when the string does not decode; an
  omitted iv and the empty string are replaced by the next 16 random bytes. The result of
  each derivation with the byte-array iv \<open>b\<close> is its result with any other byte-array iv
  \<open>b'\<close>, with \<open>b\<close> in the iv field of the key, so such an iv neither makes a derivation
  fail nor is it cut or padded; with a non-empty hex string that decodes to \<open>b\<close> a
  derivation returns what it returns with \<open>b\<close>; with the empty string it returns what it
  returns without an iv, and a key it returns without an iv carries 16 bytes.
\<close>

theorem iv_stored_verbatim:
  "defineKey (kv\<lparr>key_value.iv := Some (Bytes b)\<rparr>) g
     = (Inr \<lparr> key.iv = b, key = key_value.key kv, kdfparams = key_value.kdfparams kv,
               kdf = key_value.kdf kv \<rparr>, g) \<and>
   pbkdf2 P (po\<lparr>pbkdf2_options.iv := Some (Bytes b)\<rparr>) g
     = map_prod (map_sum id (\<lambda>k. k\<lparr>key.iv := b\<rparr>)) id
         (pbkdf2 P (po\<lparr>pbkdf2_options.iv := Some (Bytes b')\<rparr>) g) \<and>
   scrypt P (so\<lparr>scrypt_options.iv := Some (Bytes b)\<rparr>) g
     = map_prod (map_sum id (\<lambda>k. k\<lparr>key.iv := b\<rparr>)) id
         (scrypt P (so\<lparr>scrypt_options.iv := Some (Bytes b')\<rparr>) g) \<and>
   pbkdf2Async P (po\<lparr>pbkdf2_options.iv := Some (Bytes b)\<rparr>) g
     = map_prod (map_sum id (\<lambda>k. k\<lparr>key.iv := b\<rparr>)) id
         (pbkdf2Async P (po\<lparr>pbkdf2_options.iv := Some (Bytes b')\<rparr>) g) \<and>
   scryptAsync P (so\<lparr>scrypt_options.iv := Some (Bytes b)\<rparr>) g
     = map_prod (map_sum id (\<lambda>k. k\<lparr>key.iv := b\<rparr>)) id
         (scryptAsync P (so\<lparr>scrypt_options.iv := Some (Bytes b')\<rparr>) g) \<and>
   (key_value.iv kv = None \<longrightarrow>
      (\<exists>k g'. defineKey kv g = (Inr k, g') \<and> key.iv k = fst (Bytes_random 16 g) \<and>
               length (key.iv k) = 16)) \<and>
   (s \<noteq> [] \<longrightarrow>
      defineKey (kv\<lparr>key_value.iv := Some (Hex s)\<rparr>) g
        = (map_sum id
             (\<lambda>decoded. \<lparr> key.iv = decoded, key = key_value.key kv,
                            kdfparams = key_value.kdfparams kv, kdf = key_value.kdf kv \<rparr>)
             (Bytes_from (Hex s)), g)) \<and>
   defineKey (kv\<lparr>key_value.iv := Some (Hex [])\<rparr>) g
     = defineKey (kv\<lparr>key_value.iv := None\<rparr>) g \<and>
   (s \<noteq> [] \<longrightarrow> Bytes_from (Hex s) = Inr b \<longrightarrow>
      pbkdf2 P (po\<lparr>pbkdf2_options.iv := Some (Hex s)\<rparr>) g
        = pbkdf2 P (po\<lparr>pbkdf2_options.iv := Some (Bytes b)\<rparr>) g) \<and>
   (s \<noteq> [] \<longrightarrow> Bytes_from (Hex s) = Inr b \<longrightarrow>
      scrypt P (so\<lparr>scrypt_options.iv := Some (Hex s)\<rparr>) g
        = scrypt P (so\<lparr>scrypt_options.iv := Some (Bytes b)\<rparr>) g) \<and>
   (s \<noteq> [] \<longrightarrow> Bytes_from (Hex s) = Inr b \<longrightarrow>
      pbkdf2Async P (po\<lparr>pbkdf2_options.iv := Some (Hex s)\<rparr>) g
        = pbkdf2Async P (po\<lparr>pbkdf2_options.iv := Some (Bytes b)\<rparr>) g) \<and>
   (s \<noteq> [] \<longrightarrow> Bytes_from (Hex s) = Inr b \<longrightarrow>
      scryptAsync P (so\<lparr>scrypt_options.iv := Some (Hex s)\<rparr>) g
        = scryptAsync P (so\<lparr>scrypt_options.iv := Some (Bytes b)\<rparr>) g) \<and>
   pbkdf2 P (po\<lparr>pbkdf2_options.iv := Some (Hex [])\<rparr>) g
     = pbkdf2 P (po\<lparr>pbkdf2_options.iv := None\<rparr>) g \<and>
   scrypt P (so\<lparr>scrypt_options.iv := Some (Hex [])\<rparr>) g
     = scrypt P (so\<lparr>scrypt_options.iv := None\<rparr>) g \<and>
   pbkdf2Async P (po\<lparr>pbkdf2_options.iv := Some (Hex [])\<rparr>) g
     = pbkdf2Async P (po\<lparr>pbkdf2_options.iv := None\<rparr>) g \<and>
   scryptAsync P (so\<lparr>scrypt_options.iv := Some (Hex [])\<rparr>) g
     = scryptAsync P (so\<lparr>scrypt_options.iv := None\<rparr>) g \<and>
   (\<forall>k g'. pbkdf2 P (po\<lparr>pbkdf2_options.iv := None\<rparr>) g = (Inr k, g') \<longrightarrow>
      length (key.iv k) = 16) \<and>
   (\<forall>k g'. scrypt P (so\<lparr>scrypt_options.iv := None\<rparr>) g = (Inr k, g') \<longrightarrow>
      length (key.iv k) = 16) \<and>
   (\<forall>k g'. pbkdf2Async P (po\<lparr>pbkdf2_options.iv := None\<rparr>) g = (Inr k, g') \<longrightarrow>
      length (key.iv k) = 16) \<and>
   (\<forall>k g'. scryptAsync P (so\<lparr>scrypt_options.iv := None\<rparr>) g = (Inr k, g') \<longrightarrow>
      length (key.iv k) = 16)"
proof (intro conjI impI allI)
  show "defineKey (kv\<lparr>key_value.iv := Some (Bytes b)\<rparr>) g
     = (Inr \<lparr> key.iv = b, key = key_value.key kv, kdfparams = key_value.kdfparams kv,
               kdf = key_value.kdf kv \<rparr>, g)"
    by (simp add: defineKey_def from_or_random_Bytes)
next
  show "pbkdf2 P (po\<lparr>pbkdf2_options.iv := Some (Bytes b)\<rparr>) g
     = map_prod (map_sum id (\<lambda>k. k\<lparr>key.iv := b\<rparr>)) id
         (pbkdf2 P (po\<lparr>pbkdf2_options.iv := Some (Bytes b')\<rparr>) g)"
    by (simp add: pbkdf2_def Let_def defineKey_def from_or_random_Bytes
          split: prod.splits sum.splits option.splits)
next
  show "scrypt P (so\<lparr>scrypt_options.iv := Some (Bytes b)\<rparr>) g
     = map_prod (map_sum id (\<lambda>k. k\<lparr>key.iv := b\<rparr>)) id
         (scrypt P (so\<lparr>scrypt_options.iv := Some (Bytes b')\<rparr>) g)"
    by (simp add: scrypt_def Let_def defineKey_def from_or_random_Bytes
          split: prod.splits sum.splits option.splits)
next
  show "pbkdf2Async P (po\<lparr>pbkdf2_options.iv := Some (Bytes b)\<rparr>) g
     = map_prod (map_sum id (\<lambda>k. k\<lparr>key.iv := b\<rparr>)) id
         (pbkdf2Async P (po\<lparr>pbkdf2_options.iv := Some (Bytes b')\<rparr>) g)"
    by (simp add: pbkdf2Async_def Let_def defineKey_def from_or_random_Bytes
          split: prod.splits sum.splits option.splits)
next
  show "scryptAsync P (so\<lparr>scrypt_options.iv := Some (Bytes b)\<rparr>) g
     = map_prod (map_sum id (\<lambda>k. k\<lparr>key.iv := b\<rparr>)) id
         (scryptAsync P (so\<lparr>scrypt_options.iv := Some (Bytes b')\<rparr>) g)"
    by (simp add: scryptAsync_def Let_def defineKey_def from_or_random_Bytes
          split: prod.splits sum.splits option.splits)
next
  assume "key_value.iv kv = None"
  then show "\<exists>k g'. defineKey kv g = (Inr k, g') \<and> key.iv k = fst (Bytes_random 16 g) \<and>
               length (key.iv k) = 16"
    by (simp add: defineKey_def from_or_random_None length_Bytes_random)
next
  assume "s \<noteq> []"
  then show "defineKey (kv\<lparr>key_value.iv := Some (Hex s)\<rparr>) g
        = (map_sum id
             (\<lambda>decoded. \<lparr> key.iv = decoded, key = key_value.key kv,
                            kdfparams = key_value.kdfparams kv, kdf = key_value.kdf kv \<rparr>)
             (Bytes_from (Hex s)), g)"
    by (simp add: defineKey_def from_or_random_def split: sum.splits)
next
  show "defineKey (kv\<lparr>key_value.iv := Some (Hex [])\<rparr>) g
     = defineKey (kv\<lparr>key_value.iv := None\<rparr>) g"
    by (simp add: defineKey_def from_or_random_def split: prod.splits sum.splits)
next
  assume "s \<noteq> []" and "Bytes_from (Hex s) = Inr b"
  then show "pbkdf2 P (po\<lparr>pbkdf2_options.iv := Some (Hex s)\<rparr>) g
        = pbkdf2 P (po\<lparr>pbkdf2_options.iv := Some (Bytes b)\<rparr>) g"
    by (simp add: pbkdf2_def Let_def defineKey_def from_or_random_def
          split: prod.splits sum.splits option.splits)
next
  assume "s \<noteq> []" and "Bytes_from (Hex s) = Inr b"
  then show "scrypt P (so\<lparr>scrypt_options.iv := Some (Hex s)\<rparr>) g
        = scrypt P (so\<lparr>scrypt_options.iv := Some (Bytes b)\<rparr>) g"
    by (simp add: scrypt_def Let_def defineKey_def from_or_random_def
          split: prod.splits sum.splits option.splits)
next
  assume "s \<noteq> []" and "Bytes_from (Hex s) = Inr b"
  then show "pbkdf2Async P (po\<lparr>pbkdf2_options.iv := Some (Hex s)\<rparr>) g
        = pbkdf2Async P (po\<lparr>pbkdf2_options.iv := Some (Bytes b)\<rparr>) g"
    by (simp add: pbkdf2Async_def Let_def defineKey_def from_or_random_def
          split: prod.splits sum.splits option.splits)
next
  assume "s \<noteq> []" and "Bytes_from (Hex s) = Inr b"
  then show "scryptAsync P (so\<lparr>scrypt_options.iv := Some (Hex s)\<rparr>) g
        = scryptAsync P (so\<lparr>scrypt_options.iv := Some (Bytes b)\<rparr>) g"
    by (simp add: scryptAsync_def Let_def defineKey_def from_or_random_def
          split: prod.splits sum.splits option.splits)
next
  show "pbkdf2 P (po\<lparr>pbkdf2_options.iv := Some (Hex [])\<rparr>) g
     = pbkdf2 P (po\<lparr>pbkdf2_options.iv := None\<rparr>) g"
    by (simp add: pbkdf2_def Let_def defineKey_def from_or_random_def
          split: prod.splits sum.splits option.splits)
next
  show "scrypt P (so\<lparr>scrypt_options.iv := Some (Hex [])\<rparr>) g
     = scrypt P (so\<lparr>scrypt_options.iv := None\<rparr>) g"
    by (simp add: scrypt_def Let_def defineKey_def from_or_random_def
          split: prod.splits sum.splits option.splits)
next
  show "pbkdf2Async P (po\<lparr>pbkdf2_options.iv := Some (Hex [])\<rparr>) g
     = pbkdf2Async P (po\<lparr>pbkdf2_options.iv := None\<rparr>) g"
    by (simp add: pbkdf2Async_def Let_def defineKey_def from_or_random_def
          split: prod.splits sum.splits option.splits)
next
  show "scryptAsync P (so\<lparr>scrypt_options.iv := Some (Hex [])\<rparr>) g
     = scryptAsync P (so\<lparr>scrypt_options.iv := None\<rparr>) g"
    by (simp add: scryptAsync_def Let_def defineKey_def from_or_random_def
          split: prod.splits sum.splits option.splits)
next
  fix k g'
  assume "pbkdf2 P (po\<lparr>pbkdf2_options.iv := None\<rparr>) g = (Inr k, g')"
  then show "length (key.iv k) = 16"
    by (auto simp: pbkdf2_def Let_def defineKey_def from_or_random_def Bytes_random_def
          split: prod.splits sum.splits option.splits)
next
  fix k g'
  assume "scrypt P (so\<lparr>scrypt_options.iv := None\<rparr>) g = (Inr k, g')"
  then show "length (key.iv k) = 16"
    by (auto simp: scrypt_def Let_def defineKey_def from_or_random_def Bytes_random_def
          split: prod.splits sum.splits option.splits)
next
  fix k g'
  assume "pbkdf2Async P (po\<lparr>pbkdf2_options.iv := None\<rparr>) g = (Inr k, g')"
  then show "length (key.iv k) = 16"
    by (auto simp: pbkdf2Async_def Let_def defineKey_def from_or_random_def Bytes_random_def
          split: prod.splits sum.splits option.splits)
next
  fix k g'
  assume "scryptAsync P (so\<lparr>scrypt_options.iv := None\<rparr>) g = (Inr k, g')"
  then show "length (key.iv k) = 16"
    by (auto simp: scryptAsync_def Let_def defineKey_def from_or_random_def Bytes_random_def
          split: prod.splits sum.splits option.splits)
qed

text \<open>
  An iv of one byte is kept, a hex string of two bytes is stored as these two bytes, and an
  omitted iv and the empty string become 16 bytes of the generator.
\<close>

theorem iv_stored_verbatim_witness:
  "map_sum id key.iv (fst (defineKey (short_iv_value\<lparr>key_value.iv := Some (Bytes [7])\<rparr>)
                             zero_entropy)) = Inr [7] \<and>
   (\<exists>k g'. defineKey (short_iv_value\<lparr>key_value.iv := None\<rparr>) zero_entropy = (Inr k, g') \<and>
      key.iv k = replicate 16 0 \<and> length (key.iv k) = 16) \<and>
   map_sum id key.iv (fst (defineKey (short_iv_value\<lparr>key_value.iv := Some (Hex ''0x0a0b'')\<rparr>)
                             zero_entropy)) = Inr [10, 11] \<and>
   map_sum id key.iv (fst (defineKey (short_iv_value\<lparr>key_value.iv := Some (Hex [])\<rparr>)
                             zero_entropy)) = Inr (replicate 16 0)"
proof -
  have ne: "''0x0a0b'' \<noteq> []"
    by simp
  have hx: "Bytes_from (Hex ''0x0a0b'') = Inr [10, 11]"
    by code_simp
  from iv_stored_verbatim [where kv = short_iv_value and s = "''0x0a0b''" and g = zero_entropy,
         THEN conjunct2, THEN conjunct2, THEN conjunct2, THEN conjunct2, THEN conjunct2,
         THEN conjunct2, THEN conjunct1, rule_format, OF ne] hx
  have w3: "map_sum id key.iv
              (fst (defineKey (short_iv_value\<lparr>key_value.iv := Some (Hex ''0x0a0b'')\<rparr>)
                      zero_entropy)) = Inr [10, 11]"
    by simp
  have h: "key_value.iv (short_iv_value\<lparr>key_value.iv := None\<rparr>) = None"
    by simp
  have z: "fst (Bytes_random 16 zero_entropy) = replicate 16 0"
    by code_simp
  from iv_stored_verbatim [where kv = short_iv_value and b = "[7]" and g = zero_entropy,
         THEN conjunct1]
  have "map_sum id key.iv (fst (defineKey (short_iv_value\<lparr>key_value.iv := Some (Bytes [7])\<rparr>)
                             zero_entropy)) = Inr [7]"
    by simp
  moreover
  from iv_stored_verbatim [where kv = "short_iv_value\<lparr>key_value.iv := None\<rparr>"
           and g = zero_entropy, THEN conjunct2, THEN conjunct2, THEN conjunct2,
         THEN conjunct2, THEN conjunct2, THEN conjunct1, rule_format, OF h]
  have "\<exists>k g'. defineKey (short_iv_value\<lparr>key_value.iv := None\<rparr>) zero_entropy = (Inr k, g') \<and>
      key.iv k = replicate 16 0 \<and> length (key.iv k) = 16"
    unfolding z .
  moreover
  from iv_stored_verbatim [where kv = short_iv_value and g = zero_entropy,
         THEN conjunct2, THEN conjunct2, THEN conjunct2, THEN conjunct2, THEN conjunct2,
         THEN conjunct2, THEN conjunct2, THEN conjunct1]
  have "defineKey (short_iv_value\<lparr>key_value.iv := Some (Hex [])\<rparr>) zero_entropy
          = defineKey (short_iv_value\<lparr>key_value.iv := None\<rparr>) zero_entropy" .
  ultimately show ?thesis using w3 by auto
qed

section \<open>What \<open>decrypt\<close> validates\<close>

lemma fromHexString_invalid:
  assumes "\<exists>ch \<in> set xs. charCodeToBase16 ch = None"
  shows "fromHexString xs = Inl InvalidByteSequence"
  using assms
proof (induction xs rule: fromHexString.induct)
  case 1
  then show ?case by simp
next
  case (2 nibble)
  then show ?case by simp
next
  case (3 left right rest)
  show ?case
  proof (cases "charCodeToBase16 left = None \<or> charCodeToBase16 right = None")
    case True
    then show ?thesis by (auto split: option.splits)
  next
    case False
    with "3.prems" have "\<exists>ch \<in> set rest. charCodeToBase16 ch = None" by auto
    with "3.IH" False show ?thesis by (auto split: option.splits)
  qed
qed

lemma Bytes_from_invalid:
  assumes "\<exists>ch \<in> set s. charCodeToBase16 ch = None"
  shows "Bytes_from (Hex (''0x'' @ s)) = Inl InvalidByteSequence"
proof -
  from assms have "\<exists>ch \<in> set (CHR ''0'' # s). charCodeToBase16 ch = None" by auto
  with assms show ?thesis
    by (simp add: Bytes_fromHex_def fromHexString_invalid del: fromHexString.simps)
qed

text \<open>
  Claim C3 says that \<open>decrypt\<close> rejects a record with an unsupported version, cipher or
  kdf tag. It does not: the vector's record with version 4, cipher \<^verbatim>\<open>aes-256-gcm\<close> and kdf
  \<^verbatim>\<open>bcrypt\<close> is decrypted.
\<close>

theorem unsupported_record_decrypted_counterexample:
  "version unsupported_keystore = 4 \<and>
   cipher (crypto unsupported_keystore) = ''aes-256-gcm'' \<and>
   crypto.kdf (crypto unsupported_keystore) = ''bcrypt'' \<and>
   decrypt toy_primitives unsupported_keystore vector_key \<lparr>as = None\<rparr>
     = Inr (Hex ''0x01020304'')"
  by code_simp

text \<open>
  Claim C3, amended. \<open>decrypt\<close> reads the ciphertext and the mac of a record and nothing
  else: changing the version, the id, the cipher, the cipherparams, the kdf tag or the
  kdfparams leaves its result as it was. Under a key with a material of 32 bytes, a
  ciphertext or a mac with a character that is not a hex digit is refused with the byte
  codec's \<open>InvalidByteSequence\<close>, whatever the primitives are, so nothing decoded or
  decrypted is returned, and a mac that decodes to other bytes than the digest, of whatever
  length, is refused with \<open>CorruptKeystore\<close>.
\<close>

theorem decrypt_validates_hex_only:
  "decrypt P
     (ks\<lparr>crypto := (crypto ks)\<lparr>cipher := ci, cipherparams := cp, kdf := kd, kdfparams := kp\<rparr>,
         keystore.id' := ident, version := ver\<rparr>) k options
     = decrypt P ks k options \<and>
   (Bytes_from (Hex (''0x'' @ key.key k ())) = Inr material \<longrightarrow>
    length material = 32 \<longrightarrow>
    (\<exists>ch \<in> set (ciphertext (crypto ks)). charCodeToBase16 ch = None) \<longrightarrow>
    (\<forall>Q. decrypt Q ks k options = Inl InvalidByteSequence)) \<and>
   (Bytes_from (Hex (''0x'' @ key.key k ())) = Inr material \<longrightarrow>
    length material = 32 \<longrightarrow>
    Bytes_from (Hex (''0x'' @ ciphertext (crypto ks))) = Inr ct \<longrightarrow>
    (\<exists>ch \<in> set (mac (crypto ks)). charCodeToBase16 ch = None) \<longrightarrow>
    (\<forall>Q. decrypt Q ks k options = Inl InvalidByteSequence)) \<and>
   (Bytes_from (Hex (''0x'' @ key.key k ())) = Inr material \<longrightarrow>
    length material = 32 \<longrightarrow>
    Bytes_from (Hex (''0x'' @ ciphertext (crypto ks))) = Inr ct \<longrightarrow>
    Bytes_from (Hex (''0x'' @ mac (crypto ks))) = Inr stored \<longrightarrow>
    stored \<noteq> keccak256 P (Bytes_concat (Bytes_slice material 16 32) ct) \<longrightarrow>
    decrypt P ks k options = Inl CorruptKeystore)"
proof (intro conjI impI allI)
  show "decrypt P
     (ks\<lparr>crypto := (crypto ks)\<lparr>cipher := ci, cipherparams := cp, kdf := kd, kdfparams := kp\<rparr>,
         keystore.id' := ident, version := ver\<rparr>) k options
     = decrypt P ks k options"
    by (simp add: decrypt_def Let_def cong: sum.case_cong)
next
  fix Q
  assume "Bytes_from (Hex (''0x'' @ key.key k ())) = Inr material"
    and "length material = 32"
    and "\<exists>ch \<in> set (ciphertext (crypto ks)). charCodeToBase16 ch = None"
  then show "decrypt Q ks k options = Inl InvalidByteSequence"
    using Bytes_from_invalid [of "ciphertext (crypto ks)"]
    by (simp add: decrypt_def Let_def del: Bytes_from.simps)
next
  fix Q
  assume "Bytes_from (Hex (''0x'' @ key.key k ())) = Inr material"
    and "length material = 32"
    and "Bytes_from (Hex (''0x'' @ ciphertext (crypto ks))) = Inr ct"
    and "\<exists>ch \<in> set (mac (crypto ks)). charCodeToBase16 ch = None"
  then show "decrypt Q ks k options = Inl InvalidByteSequence"
    using Bytes_from_invalid [of "mac (crypto ks)"]
    by (simp add: decrypt_def Let_def del: Bytes_from.simps)
next
  assume k: "Bytes_from (Hex (''0x'' @ key.key k ())) = Inr material"
    and "length material = 32"
    and c: "Bytes_from (Hex (''0x'' @ ciphertext (crypto ks))) = Inr ct"
    and m: "Bytes_from (Hex (''0x'' @ mac (crypto ks))) = Inr stored"
    and "stored \<noteq> keccak256 P (Bytes_concat (Bytes_slice material 16 32) ct)"
  then show "decrypt P ks k options = Inl CorruptKeystore"
    by (auto simp: decrypt_decoded [OF k c m] Bytes_concat_def)
qed

text \<open>
  The record with the unsupported tags is treated as the vector's record; a ciphertext
  \<^verbatim>\<open>0g\<close> and a mac \<^verbatim>\<open>xyz\<close> are refused.
\<close>

theorem decrypt_validates_hex_only_witness:
  "decrypt toy_primitives unsupported_keystore vector_key \<lparr>as = None\<rparr>
     = decrypt toy_primitives vector_keystore vector_key \<lparr>as = None\<rparr> \<and>
   decrypt toy_primitives
     (vector_keystore\<lparr>crypto := (crypto vector_keystore)\<lparr>ciphertext := ''0g''\<rparr>\<rparr>)
     vector_key \<lparr>as = None\<rparr> = Inl InvalidByteSequence \<and>
   decrypt toy_primitives
     (vector_keystore\<lparr>crypto := (crypto vector_keystore)\<lparr>mac := ''xyz''\<rparr>\<rparr>)
     vector_key \<lparr>as = None\<rparr> = Inl InvalidByteSequence"
proof -
  let ?c = "vector_keystore\<lparr>crypto := (crypto vector_keystore)\<lparr>ciphertext := ''0g''\<rparr>\<rparr>"
  let ?m = "vector_keystore\<lparr>crypto := (crypto vector_keystore)\<lparr>mac := ''xyz''\<rparr>\<rparr>"
  have k: "Bytes_from (Hex (''0x'' @ key.key vector_key ())) = Inr vector_material"
    by code_simp
  have l: "length vector_material = 32"
    by code_simp
  have bc: "\<exists>ch \<in> set (ciphertext (crypto ?c)). charCodeToBase16 ch = None"
    by code_simp
  have c: "Bytes_from (Hex (''0x'' @ ciphertext (crypto ?m))) = Inr [3, 118, 102, 119]"
    by code_simp
  have bm: "\<exists>ch \<in> set (mac (crypto ?m)). charCodeToBase16 ch = None"
    by code_simp
  have "decrypt toy_primitives unsupported_keystore vector_key \<lparr>as = None\<rparr>
          = decrypt toy_primitives vector_keystore vector_key \<lparr>as = None\<rparr>"
    using decrypt_validates_hex_only
            [where P = toy_primitives and ks = vector_keystore and k = vector_key
               and ci = "''aes-256-gcm''" and kd = "''bcrypt''" and ver = 4
               and cp = "cipherparams (crypto vector_keystore)"
               and kp = "crypto.kdfparams (crypto vector_keystore)"
               and ident = "keystore.id' vector_keystore" and options = "\<lparr>as = None\<rparr>",
             THEN conjunct1]
    by (simp add: unsupported_keystore_def)
  moreover
  from decrypt_validates_hex_only [where ks = ?c, THEN conjunct2, THEN conjunct1, rule_format,
         OF k l bc]
  have "decrypt toy_primitives ?c vector_key \<lparr>as = None\<rparr> = Inl InvalidByteSequence" .
  moreover
  from decrypt_validates_hex_only [where ks = ?m, THEN conjunct2, THEN conjunct2,
         THEN conjunct1, rule_format, OF k l c bm]
  have "decrypt toy_primitives ?m vector_key \<lparr>as = None\<rparr> = Inl InvalidByteSequence" .
  ultimately show ?thesis by blast
qed

end
